theory Spec2Isabelle
  imports Main
begin

section \<open>Data model\<close>

text \<open>
  Go strings are byte sequences; \<^typ>\<open>string\<close> is a list of 8-bit characters, so the two
  coincide. The struct \<^verbatim>\<open>Author\<close> of \<^verbatim>\<open>core.go\<close> has four string fields.
\<close>

record Author =
  Name :: string
  CommitCount :: string
  RepoName :: string
  SearchURL :: string

definition byte :: "char \<Rightarrow> nat" where
  "byte c = of_char c"

section \<open>Package strings\<close>

text \<open>\<^verbatim>\<open>strings.Index\<close> and \<^verbatim>\<open>strings.Cut\<close> on byte strings.\<close>

fun Index :: "string \<Rightarrow> string \<Rightarrow> nat option" where
  "Index [] substr = (if substr = [] then Some 0 else None)"
| "Index (c # s) substr =
     (if take (length substr) (c # s) = substr then Some 0
      else map_option Suc (Index s substr))"

definition Cut :: "string \<Rightarrow> string \<Rightarrow> string \<times> string \<times> bool" where
  "Cut s sep = (case Index s sep of
                  None \<Rightarrow> (s, [], False)
                | Some i \<Rightarrow> (take i s, drop (i + length sep) s, True))"

lemma Index_bound: "Index s sep = Some i \<Longrightarrow> i + length sep \<le> length s"
proof (induction s arbitrary: i)
  case Nil
  then show ?case by (simp split: if_splits)
next
  case (Cons c s)
  show ?case
  proof (cases "take (length sep) (c # s) = sep")
    case True
    then have "length (take (length sep) (c # s)) = length sep" by simp
    then have "length sep \<le> length (c # s)" by (simp del: length_Cons)
    with True Cons.prems show ?thesis by simp
  next
    case False
    with Cons.prems obtain j where "Index s sep = Some j" "i = Suc j" by auto
    with Cons.IH show ?thesis by auto
  qed
qed

text \<open>
  \<^verbatim>\<open>utf8.DecodeRuneInString\<close>, reduced to the width it reports: the number of bytes of the
  UTF-8 sequence the string starts with, 1 for a byte that starts no valid sequence (it
  decodes to U+FFFD) and 0 for the empty string. The second byte of a sequence has the
  range the first byte allows (the table \<^verbatim>\<open>acceptRanges\<close>), later bytes are 0x80 to 0xBF.
\<close>

definition runeWidth :: "string \<Rightarrow> nat" where
  "runeWidth s =
     (case s of
        [] \<Rightarrow> 0
      | b0 # r \<Rightarrow>
         (let n = byte b0;
              sz = (if n \<le> 0xDF then 2 else if n \<le> 0xEF then 3 else (4::nat));
              lo = (if n = 0xE0 then 0xA0 else if n = 0xF0 then 0x90 else (0x80::nat));
              hi = (if n = 0xED then 0x9F else if n = 0xF4 then 0x8F else (0xBF::nat))
          in if n < 0x80 then 1
             else if n < 0xC2 \<or> 0xF4 < n then 1
             else if length s < sz then 1
             else if byte (s ! 1) < lo \<or> hi < byte (s ! 1) then 1
             else if sz \<le> 2 then 2
             else if byte (s ! 2) < 0x80 \<or> 0xBF < byte (s ! 2) then 1
             else if sz \<le> 3 then 3
             else if byte (s ! 3) < 0x80 \<or> 0xBF < byte (s ! 3) then 1
             else 4))"

lemma runeWidth_pos: "s \<noteq> [] \<Longrightarrow> 0 < runeWidth s"
  by (cases s) (simp_all add: runeWidth_def Let_def)

text \<open>\<^verbatim>\<open>explode(s, -1)\<close>: the string cut after every UTF-8 sequence; this is what
  \<^verbatim>\<open>strings.Split\<close> returns for the empty separator.\<close>

function explode :: "string \<Rightarrow> string list" where
  "explode s = (if s = [] then [] else take (runeWidth s) s # explode (drop (runeWidth s) s))"
  by pat_completeness auto
termination
proof (relation "measure length")
  show "wf (measure length)" by simp
next
  fix s :: string
  assume "s \<noteq> []"
  then have "0 < runeWidth s" and "0 < length s" by (simp_all add: runeWidth_pos)
  then have "length s - runeWidth s < length s" by arith
  then show "(drop (runeWidth s) s, s) \<in> measure length" by simp
qed

declare explode.simps [simp del]

function Split :: "string \<Rightarrow> string \<Rightarrow> string list" where
  "Split s sep =
     (if sep = [] then explode s
      else case Index s sep of
             None \<Rightarrow> [s]
           | Some i \<Rightarrow> take i s # Split (drop (i + length sep) s) sep)"
  by pat_completeness auto
termination
proof (relation "measure (\<lambda>(s, sep). length s)")
  show "wf (measure (\<lambda>(s, sep). length s))" by simp
next
  fix s sep :: string and i
  assume "sep \<noteq> []" "Index s sep = Some i"
  then have "i + length sep \<le> length s" and "0 < length sep"
    by (auto dest: Index_bound)
  then have "length s - (i + length sep) < length s" by arith
  then show "((drop (i + length sep) s, sep), (s, sep)) \<in> measure (\<lambda>(s, sep). length s)"
    by simp
qed

declare Split.simps [simp del]

lemma Index_notin: "c \<notin> set a \<Longrightarrow> Index a [c] = None"
  by (induction a) auto

lemma Index_first: "c \<notin> set a \<Longrightarrow> Index (a @ c # b) [c] = Some (length a)"
  by (induction a) auto

lemma Split_notin: "c \<notin> set a \<Longrightarrow> Split a [c] = [a]"
  by (subst Split.simps) (simp add: Index_notin)

lemma Split_first: "c \<notin> set a \<Longrightarrow> Split (a @ c # b) [c] = a # Split b [c]"
  by (subst Split.simps) (simp add: Index_first)


lemma Cut_first: "c \<notin> set a \<Longrightarrow> Cut (a @ c # b) [c] = (a, b, True)"
  by (simp add: Cut_def Index_first)

section \<open>Package net/url: query escaping\<close>

datatype encoding =
  encodePath | encodePathSegment | encodeHost | encodeZone
  | encodeUserPassword | encodeQueryComponent | encodeFragment

definition isAlnum :: "char \<Rightarrow> bool" where
  "isAlnum c = ((97 \<le> byte c \<and> byte c \<le> 122) \<or> (65 \<le> byte c \<and> byte c \<le> 90)
                \<or> (48 \<le> byte c \<and> byte c \<le> 57))"

text \<open>\<^verbatim>\<open>shouldEscape(c, mode)\<close> of net/url, branch by branch.\<close>

definition shouldEscape :: "char \<Rightarrow> encoding \<Rightarrow> bool" where
  "shouldEscape c mode =
     (if isAlnum c then False
      else if (mode = encodeHost \<or> mode = encodeZone) \<and> c \<in> set ''!$&'()*+,;=:[]<>\"'' then False
      else if c \<in> set ''-_.~'' then False
      else if c \<in> set ''$&+,/:;=?@'' \<and> mode = encodePath then c = CHR ''?''
      else if c \<in> set ''$&+,/:;=?@'' \<and> mode = encodePathSegment then c \<in> set ''/;,?''
      else if c \<in> set ''$&+,/:;=?@'' \<and> mode = encodeUserPassword then c \<in> set ''@/?:''
      else if c \<in> set ''$&+,/:;=?@'' \<and> mode = encodeQueryComponent then True
      else if c \<in> set ''$&+,/:;=?@'' \<and> mode = encodeFragment then False
      else if mode = encodeFragment \<and> c \<in> set ''!()*'' then False
      else True)"

definition upperhex :: string where
  "upperhex = ''0123456789ABCDEF''"

text \<open>One byte of \<^verbatim>\<open>escape(s, mode)\<close>: a space becomes \<^verbatim>\<open>+\<close> in query mode, an
  escaped byte becomes \<^verbatim>\<open>%XY\<close> with \<^verbatim>\<open>X = upperhex[c>>4]\<close> and \<^verbatim>\<open>Y = upperhex[c&15]\<close>.\<close>

definition escapeByte :: "encoding \<Rightarrow> char \<Rightarrow> string" where
  "escapeByte mode c =
     (if c = CHR '' '' \<and> mode = encodeQueryComponent then ''+''
      else if shouldEscape c mode
        then [CHR ''%'', upperhex ! (byte c div 16), upperhex ! (byte c mod 16)]
      else [c])"

definition escape :: "string \<Rightarrow> encoding \<Rightarrow> string" where
  "escape s mode = concat (map (escapeByte mode) s)"

definition QueryEscape :: "string \<Rightarrow> string" where
  "QueryEscape s = escape s encodeQueryComponent"


datatype error =
    EscapeError string
  | InvalidHostError string
  | UrlError string
  | InvalidPortError string
  | UrlParseError string error
  | ExecError string
  | GetRepoURLFailed error int string
  | GetCurrentBranchFailed error int string
  | GitShortlogFailed error int string
  | InvalidSSHURLFormat string
  | ParseRepoURLFailed error
  | CreateFileFailed error
  | ParseTemplateFailed error
  | ExecuteTemplateFailed error
  | WriteNewlineFailed error
  | PathError string
  | TemplateError string
  | ErrShortWrite

definition ishex :: "char \<Rightarrow> bool" where
  "ishex c = ((48 \<le> byte c \<and> byte c \<le> 57) \<or> (97 \<le> byte c \<and> byte c \<le> 102)
              \<or> (65 \<le> byte c \<and> byte c \<le> 70))"

definition unhex :: "char \<Rightarrow> nat" where
  "unhex c =
     (if 48 \<le> byte c \<and> byte c \<le> 57 then byte c - 48
      else if 97 \<le> byte c \<and> byte c \<le> 102 then byte c - 97 + 10
      else if 65 \<le> byte c \<and> byte c \<le> 70 then byte c - 65 + 10
      else 0)"

text \<open>The test \<^verbatim>\<open>unescape\<close> makes at a \<^verbatim>\<open>%\<close>; \<open>s\<close> is the input from that byte on.\<close>

definition percentCheck :: "string \<Rightarrow> encoding \<Rightarrow> error option" where
  "percentCheck s mode =
     (case s of
        c # a # b # rest \<Rightarrow>
          if \<not> ishex a \<or> \<not> ishex b then Some (EscapeError (take 3 s))
          else if mode = encodeHost \<and> unhex a < 8 \<and> [c, a, b] \<noteq> ''%25''
            then Some (EscapeError [c, a, b])
          else if mode = encodeZone \<and> [c, a, b] \<noteq> ''%25''
                  \<and> char_of (unhex a * 16 + unhex b) \<noteq> CHR '' ''
                  \<and> shouldEscape (char_of (unhex a * 16 + unhex b)) encodeHost
            then Some (EscapeError [c, a, b])
          else None
      | _ \<Rightarrow> Some (EscapeError (take 3 s)))"

definition hostByteCheck :: "char \<Rightarrow> encoding \<Rightarrow> error option" where
  "hostByteCheck c mode =
     (if (mode = encodeHost \<or> mode = encodeZone) \<and> byte c < 128 \<and> shouldEscape c encodeHost
      then Some (InvalidHostError [c]) else None)"

function unescapeCheck :: "string \<Rightarrow> encoding \<Rightarrow> error option" where
  "unescapeCheck [] mode = None"
| "unescapeCheck (c # s) mode =
     (if c = CHR ''%'' then
        (case percentCheck (c # s) mode of
           Some e \<Rightarrow> Some e
         | None \<Rightarrow> unescapeCheck (drop 2 s) mode)
      else if c = CHR ''+'' then unescapeCheck s mode
      else (case hostByteCheck c mode of
              Some e \<Rightarrow> Some e
            | None \<Rightarrow> unescapeCheck s mode))"
  by pat_completeness auto
termination
  by (relation "measure (\<lambda>(s, mode). length s)") auto

fun unescapeBytes :: "string \<Rightarrow> encoding \<Rightarrow> string" where
  "unescapeBytes [] mode = []"
| "unescapeBytes (c # s) mode =
     (if c = CHR ''%'' then
        (case s of
           a # b # rest \<Rightarrow> char_of (unhex a * 16 + unhex b) # unescapeBytes rest mode
         | _ \<Rightarrow> [])
      else if c = CHR ''+'' then
        (if mode = encodeQueryComponent then CHR '' '' else CHR ''+'') # unescapeBytes s mode
      else c # unescapeBytes s mode)"

definition unescape :: "string \<Rightarrow> encoding \<Rightarrow> error + string" where
  "unescape s mode =
     (case unescapeCheck s mode of
        Some e \<Rightarrow> Inl e
      | None \<Rightarrow> Inr (unescapeBytes s mode))"

definition QueryUnescape :: "string \<Rightarrow> error + string" where
  "QueryUnescape s = unescape s encodeQueryComponent"

lemma upperhex_all:
  "\<forall>n \<in> set [0..<16]. ishex (upperhex ! n) \<and> unhex (upperhex ! n) = n \<and> upperhex ! n \<notin> set ''&=;''"
  by code_simp

lemma upperhex_nth: "n < 16 \<Longrightarrow> ishex (upperhex ! n) \<and> unhex (upperhex ! n) = n"
  using upperhex_all by simp

lemma upperhex_nth_separators: "n < 16 \<Longrightarrow> upperhex ! n \<notin> set ''&=;''"
  using upperhex_all by simp

lemma byte_less: "byte c < 256"
  by (simp add: byte_def)

lemma byte_hex_split: "char_of (byte c div 16 * 16 + byte c mod 16) = c"
  by (simp add: byte_def)

lemma unescape_escapeByte:
  "unescapeCheck (escapeByte encodeQueryComponent c @ t) encodeQueryComponent
     = unescapeCheck t encodeQueryComponent
   \<and> unescapeBytes (escapeByte encodeQueryComponent c @ t) encodeQueryComponent
     = c # unescapeBytes t encodeQueryComponent"
proof -
  have d: "byte c div 16 < 16" using byte_less [of c] by simp
  have m: "byte c mod 16 < 16" by simp
  consider (sp) "c = CHR '' ''" | (esc) "c \<noteq> CHR '' ''" "shouldEscape c encodeQueryComponent"
    | (plain) "c \<noteq> CHR '' ''" "\<not> shouldEscape c encodeQueryComponent" by blast
  then show ?thesis
  proof cases
    case sp
    then show ?thesis by (simp add: escapeByte_def)
  next
    case esc
    then show ?thesis
      using upperhex_nth [OF d] upperhex_nth [OF m] byte_hex_split [of c]
      by (simp add: escapeByte_def percentCheck_def)
  next
    case plain
    then have "c \<noteq> CHR ''%''" "c \<noteq> CHR ''+''"
      by (auto simp: shouldEscape_def isAlnum_def byte_def)
    with plain show ?thesis by (simp add: escapeByte_def hostByteCheck_def)
  qed
qed

lemma unescape_escape_append:
  "unescapeCheck (escape s encodeQueryComponent @ t) encodeQueryComponent
     = unescapeCheck t encodeQueryComponent
   \<and> unescapeBytes (escape s encodeQueryComponent @ t) encodeQueryComponent
     = s @ unescapeBytes t encodeQueryComponent"
  by (induction s) (simp_all add: escape_def unescape_escapeByte)

lemma QueryUnescape_QueryEscape: "QueryUnescape (QueryEscape s) = Inr s"
  using unescape_escape_append [of s "[]"]
  by (simp add: QueryUnescape_def QueryEscape_def unescape_def)

lemma shouldEscape_separators:
  "shouldEscape (CHR ''&'') encodeQueryComponent"
  "shouldEscape (CHR ''='') encodeQueryComponent"
  "shouldEscape (CHR '';'') encodeQueryComponent"
  by (simp_all add: shouldEscape_def isAlnum_def byte_def)

lemma escapeByte_chars:
  "set (escapeByte encodeQueryComponent c) \<inter> set ''&=;'' = {}"
proof -
  have d: "byte c div 16 < 16" using byte_less [of c] by simp
  have m: "byte c mod 16 < 16" by simp
  consider (sp) "c = CHR '' ''" | (esc) "c \<noteq> CHR '' ''" "shouldEscape c encodeQueryComponent"
    | (plain) "c \<noteq> CHR '' ''" "\<not> shouldEscape c encodeQueryComponent" by blast
  then show ?thesis
  proof cases
    case sp
    then show ?thesis by (simp add: escapeByte_def)
  next
    case esc
    then show ?thesis
      using upperhex_nth_separators [OF d] upperhex_nth_separators [OF m]
      by (simp add: escapeByte_def)
  next
    case plain
    then have "c \<noteq> CHR ''&''" "c \<noteq> CHR ''=''" "c \<noteq> CHR '';''"
      using shouldEscape_separators by blast+
    with plain show ?thesis by (simp add: escapeByte_def)
  qed
qed

lemma QueryEscape_chars: "set (QueryEscape s) \<inter> set ''&=;'' = {}"
  using escapeByte_chars by (induction s) (auto simp: QueryEscape_def escape_def)


definition Contains :: "string \<Rightarrow> string \<Rightarrow> bool" where
  "Contains s substr = (Index s substr \<noteq> None)"

type_synonym ValuesMap = "string \<rightharpoonup> string list"

definition parseQueryStep :: "ValuesMap \<Rightarrow> string \<Rightarrow> error option \<Rightarrow> ValuesMap \<times> error option" where
  "parseQueryStep m key err =
     (if Contains key '';'' then (m, Some (UrlError ''invalid semicolon separator in query''))
      else if key = [] then (m, err)
      else case Cut key ''='' of (k, v, found) \<Rightarrow>
        (case QueryUnescape k of
           Inl err1 \<Rightarrow> (m, if err = None then Some err1 else err)
         | Inr k' \<Rightarrow>
            (case QueryUnescape v of
               Inl err1 \<Rightarrow> (m, if err = None then Some err1 else err)
             | Inr v' \<Rightarrow> (m(k' \<mapsto> (case m k' of None \<Rightarrow> [] | Some vs \<Rightarrow> vs) @ [v']), err))))"

lemma Cut_rest_shorter:
  "s \<noteq> [] \<Longrightarrow> sep \<noteq> [] \<Longrightarrow> length (fst (snd (Cut s sep))) < length s"
proof (cases "Index s sep")
  case None
  assume "s \<noteq> []"
  with None show ?thesis by (simp add: Cut_def)
next
  case (Some i)
  assume "s \<noteq> []" "sep \<noteq> []"
  moreover have "i + length sep \<le> length s" using Some by (rule Index_bound)
  ultimately have "length s - (i + length sep) < length s" by (cases sep) auto
  with Some show ?thesis by (simp add: Cut_def)
qed

function parseQuery :: "ValuesMap \<Rightarrow> string \<Rightarrow> error option \<Rightarrow> ValuesMap \<times> error option" where
  "parseQuery m query err =
     (if query = [] then (m, err)
      else case parseQueryStep m (fst (Cut query ''&'')) err of
             (m', err') \<Rightarrow> parseQuery m' (fst (snd (Cut query ''&''))) err')"
  by pat_completeness auto
termination
  by (relation "measure (\<lambda>(m, query, err). length query)") (auto simp: Cut_rest_shorter)

declare parseQuery.simps [simp del]

definition ParseQuery :: "string \<Rightarrow> ValuesMap \<times> error option" where
  "ParseQuery query = parseQuery Map.empty query None"

lemma QueryUnescape_q: "QueryUnescape ''q'' = Inr ''q''"
  by (simp add: QueryUnescape_def unescape_def hostByteCheck_def)

lemma QueryUnescape_tbm: "QueryUnescape ''tbm'' = Inr ''tbm''"
  by (simp add: QueryUnescape_def unescape_def hostByteCheck_def)

lemma QueryUnescape_isch: "QueryUnescape ''isch'' = Inr ''isch''"
  by (simp add: QueryUnescape_def unescape_def hostByteCheck_def)

lemma parseQueryStep_tbm:
  "parseQueryStep m ''tbm=isch'' err
     = (m(''tbm'' \<mapsto> (case m ''tbm'' of None \<Rightarrow> [] | Some vs \<Rightarrow> vs) @ [''isch'']), err)"
  by (simp add: parseQueryStep_def Contains_def Cut_def QueryUnescape_tbm QueryUnescape_isch)

lemma parseQueryStep_q:
  "parseQueryStep Map.empty (''q='' @ QueryEscape x) err = ([''q'' \<mapsto> [x]], err)"
proof -
  have n: "CHR '';'' \<notin> set (''q='' @ QueryEscape x)" "CHR ''='' \<notin> set ''q''"
    using QueryEscape_chars [of x] by auto
  have c: "Cut (''q'' @ CHR ''='' # QueryEscape x) ''='' = (''q'', QueryEscape x, True)"
    using n(2) by (rule Cut_first)
  show ?thesis
    using Index_notin [OF n(1)] c
    by (simp add: parseQueryStep_def Contains_def QueryUnescape_q QueryUnescape_QueryEscape)
qed

lemma ParseQuery_search:
  "ParseQuery (''q='' @ QueryEscape x @ ''&tbm=isch'') = ([''q'' \<mapsto> [x], ''tbm'' \<mapsto> [''isch'']], None)"
proof -
  have n: "CHR ''&'' \<notin> set (''q='' @ QueryEscape x)"
    using QueryEscape_chars [of x] by auto
  have c: "Cut ((''q='' @ QueryEscape x) @ CHR ''&'' # ''tbm=isch'') ''&''
             = (''q='' @ QueryEscape x, ''tbm=isch'', True)"
    using n by (rule Cut_first)
  have c2: "Cut ''tbm=isch'' ''&'' = (''tbm=isch'', [], False)"
    by (simp add: Cut_def)
  have "parseQuery Map.empty (''q='' @ QueryEscape x @ ''&tbm=isch'') None
          = parseQuery [''q'' \<mapsto> [x]] ''tbm=isch'' None"
    using c parseQueryStep_q [of x None] by (subst parseQuery.simps) simp
  also have "\<dots> = parseQuery [''q'' \<mapsto> [x], ''tbm'' \<mapsto> [''isch'']] [] None"
    using c2 parseQueryStep_tbm [of "[''q'' \<mapsto> [x]]" None] by (subst parseQuery.simps) simp
  also have "\<dots> = ([''q'' \<mapsto> [x], ''tbm'' \<mapsto> [''isch'']], None)"
    by (subst parseQuery.simps) simp
  finally show ?thesis by (simp add: ParseQuery_def)
qed

subsection \<open>\<^verbatim>\<open>url.Values\<close> and \<^verbatim>\<open>Values.Encode\<close>\<close>

text \<open>A \<^verbatim>\<open>url.Values\<close> literal is kept as the association list of its entries;
  \<^verbatim>\<open>Encode\<close> sorts the keys (bytewise, as \<^verbatim>\<open>slices.Sort\<close> on strings does) and emits
  \<^verbatim>\<open>key=value\<close> pairs joined by \<^verbatim>\<open>&\<close>.\<close>

type_synonym Values = "(string \<times> string list) list"

fun strLess :: "string \<Rightarrow> string \<Rightarrow> bool" where
  "strLess [] [] = False"
| "strLess [] (y # ys) = True"
| "strLess (x # xs) [] = False"
| "strLess (x # xs) (y # ys) = (byte x < byte y \<or> (x = y \<and> strLess xs ys))"

fun insertKey :: "string \<Rightarrow> string list \<Rightarrow> string list" where
  "insertKey k [] = [k]"
| "insertKey k (x # xs) = (if strLess x k then x # insertKey k xs else k # x # xs)"

definition sortKeys :: "string list \<Rightarrow> string list" where
  "sortKeys ks = foldr insertKey ks []"

definition valuesOf :: "Values \<Rightarrow> string \<Rightarrow> string list" where
  "valuesOf v k = (case map_of v k of None \<Rightarrow> [] | Some vs \<Rightarrow> vs)"

text \<open>The inner loop of \<^verbatim>\<open>Encode\<close>: \<^verbatim>\<open>buf\<close> is the string builder.\<close>

fun encodeValues :: "string \<Rightarrow> string list \<Rightarrow> string \<Rightarrow> string" where
  "encodeValues keyEscaped [] buf = buf"
| "encodeValues keyEscaped (v # vs) buf =
     encodeValues keyEscaped vs
       ((if length buf > 0 then buf @ ''&'' else buf) @ keyEscaped @ ''='' @ QueryEscape v)"

fun encodeKeys :: "Values \<Rightarrow> string list \<Rightarrow> string \<Rightarrow> string" where
  "encodeKeys v [] buf = buf"
| "encodeKeys v (k # ks) buf = encodeKeys v ks (encodeValues (QueryEscape k) (valuesOf v k) buf)"

definition Encode :: "Values \<Rightarrow> string" where
  "Encode v = (if length v = 0 then [] else encodeKeys v (sortKeys (map fst v)) [])"

fun LastIndex :: "string \<Rightarrow> string \<Rightarrow> nat option" where
  "LastIndex [] substr = (if substr = [] then Some 0 else None)"
| "LastIndex (c # s) substr =
     (case LastIndex s substr of
        Some i \<Rightarrow> Some (Suc i)
      | None \<Rightarrow> if take (length substr) (c # s) = substr then Some 0 else None)"

definition HasPrefix :: "string \<Rightarrow> string \<Rightarrow> bool" where
  "HasPrefix s prefix = (length s \<ge> length prefix \<and> take (length prefix) s = prefix)"

definition HasSuffix :: "string \<Rightarrow> string \<Rightarrow> bool" where
  "HasSuffix s suffix =
     (length s \<ge> length suffix \<and> drop (length s - length suffix) s = suffix)"

definition TrimSuffix :: "string \<Rightarrow> string \<Rightarrow> string" where
  "TrimSuffix s suffix = (if HasSuffix s suffix then take (length s - length suffix) s else s)"

text \<open>\<^verbatim>\<open>strings.Count\<close>: for the empty \<open>substr\<close> one more than the number of runes, else
  the number of non-overlapping occurrences, which is one less than the number of pieces
  \<^verbatim>\<open>Split\<close> returns.\<close>

definition Count :: "string \<Rightarrow> string \<Rightarrow> nat" where
  "Count s substr =
     (if substr = [] then length (explode s) + 1 else length (Split s substr) - 1)"

section \<open>Package net/url: \<^verbatim>\<open>Parse\<close>\<close>

text \<open>The fields of \<^verbatim>\<open>url.URL\<close> that \<^verbatim>\<open>Parse\<close> fills from the text (the user
  information is checked but not kept: the program reads \<^verbatim>\<open>Path\<close> only).\<close>

record URL =
  Scheme :: string
  Opaque :: string
  Host :: string
  Path :: string
  RawPath :: string
  ForceQuery :: bool
  RawQuery :: string
  Fragment :: string
  RawFragment :: string

definition emptyURL :: URL where
  "emptyURL = \<lparr>Scheme = [], Opaque = [], Host = [], Path = [], RawPath = [],
                ForceQuery = False, RawQuery = [], Fragment = [], RawFragment = []\<rparr>"

definition stringContainsCTLByte :: "string \<Rightarrow> bool" where
  "stringContainsCTLByte s = list_ex (\<lambda>b. byte b < 32 \<or> byte b = 127) s"

definition isAlpha :: "char \<Rightarrow> bool" where
  "isAlpha c = ((97 \<le> byte c \<and> byte c \<le> 122) \<or> (65 \<le> byte c \<and> byte c \<le> 90))"

definition isDigit :: "char \<Rightarrow> bool" where
  "isDigit c = (48 \<le> byte c \<and> byte c \<le> 57)"

text \<open>\<^verbatim>\<open>getScheme\<close>: \<open>i\<close> is the loop index and the third argument the bytes from
  \<open>i\<close> on.\<close>

fun getSchemeLoop :: "string \<Rightarrow> nat \<Rightarrow> string \<Rightarrow> error + (string \<times> string)" where
  "getSchemeLoop rawURL i [] = Inr ([], rawURL)"
| "getSchemeLoop rawURL i (c # cs) =
     (if isAlpha c then getSchemeLoop rawURL (Suc i) cs
      else if isDigit c \<or> c = CHR ''+'' \<or> c = CHR ''-'' \<or> c = CHR ''.'' then
        (if i = 0 then Inr ([], rawURL) else getSchemeLoop rawURL (Suc i) cs)
      else if c = CHR '':'' then
        (if i = 0 then Inl (UrlError ''missing protocol scheme'')
         else Inr (take i rawURL, drop (Suc i) rawURL))
      else Inr ([], rawURL))"

definition getScheme :: "string \<Rightarrow> error + (string \<times> string)" where
  "getScheme rawURL = getSchemeLoop rawURL 0 rawURL"

text \<open>\<^verbatim>\<open>strings.ToLower\<close> on the scheme, whose bytes are ASCII.\<close>

definition toLowerByte :: "char \<Rightarrow> char" where
  "toLowerByte c = (if 65 \<le> byte c \<and> byte c \<le> 90 then char_of (byte c + 32) else c)"

definition validOptionalPort :: "string \<Rightarrow> bool" where
  "validOptionalPort port =
     (case port of
        [] \<Rightarrow> True
      | c # ds \<Rightarrow> c = CHR '':'' \<and> list_all isDigit ds)"

definition validUserinfo :: "string \<Rightarrow> bool" where
  "validUserinfo s = list_all (\<lambda>r. isAlnum r \<or> r \<in> set ''-._:~!$&'()*+,;=%@'') s"

definition parseHost :: "string \<Rightarrow> error + string" where
  "parseHost host =
     (if HasPrefix host ''['' then
        (case LastIndex host '']'' of
           None \<Rightarrow> Inl (UrlError ''missing ']' in host'')
         | Some i \<Rightarrow>
            if \<not> validOptionalPort (drop (Suc i) host)
              then Inl (InvalidPortError (drop (Suc i) host))
            else (case Index (take i host) ''%25'' of
                    Some zone \<Rightarrow>
                      (case unescape (take zone host) encodeHost of
                         Inl e \<Rightarrow> Inl e
                       | Inr host1 \<Rightarrow>
                          (case unescape (drop zone (take i host)) encodeZone of
                             Inl e \<Rightarrow> Inl e
                           | Inr host2 \<Rightarrow>
                              (case unescape (drop i host) encodeHost of
                                 Inl e \<Rightarrow> Inl e
                               | Inr host3 \<Rightarrow> Inr (host1 @ host2 @ host3))))
                  | None \<Rightarrow> unescape host encodeHost))
      else (case LastIndex host '':'' of
              Some i \<Rightarrow>
                if \<not> validOptionalPort (drop i host)
                  then Inl (InvalidPortError (drop i host))
                else unescape host encodeHost
            | None \<Rightarrow> unescape host encodeHost))"

text \<open>\<^verbatim>\<open>parseAuthority\<close> returns the host; the user name and password are unescaped
  (which can fail) and dropped.\<close>

definition parseUserinfo :: "string \<Rightarrow> error option" where
  "parseUserinfo userinfo =
     (if \<not> validUserinfo userinfo then Some (UrlError ''net/url: invalid userinfo'')
      else if \<not> Contains userinfo '':'' then
        (case unescape userinfo encodeUserPassword of Inl e \<Rightarrow> Some e | Inr u \<Rightarrow> None)
      else (case Cut userinfo '':'' of (username, password, found) \<Rightarrow>
        (case unescape username encodeUserPassword of
           Inl e \<Rightarrow> Some e
         | Inr u \<Rightarrow>
            (case unescape password encodeUserPassword of Inl e \<Rightarrow> Some e | Inr p \<Rightarrow> None))))"

definition parseAuthority :: "string \<Rightarrow> error + string" where
  "parseAuthority authority =
     (case LastIndex authority ''@'' of
        None \<Rightarrow> parseHost authority
      | Some i \<Rightarrow>
         (case parseHost (drop (Suc i) authority) of
            Inl e \<Rightarrow> Inl e
          | Inr host \<Rightarrow>
             (case parseUserinfo (take i authority) of
                Some e \<Rightarrow> Inl e
              | None \<Rightarrow> Inr host)))"

definition setPath :: "URL \<Rightarrow> string \<Rightarrow> error + URL" where
  "setPath u p =
     (case unescape p encodePath of
        Inl e \<Rightarrow> Inl e
      | Inr path \<Rightarrow>
          Inr (u\<lparr>Path := path, RawPath := (if p = escape path encodePath then [] else p)\<rparr>))"

definition setFragment :: "URL \<Rightarrow> string \<Rightarrow> error + URL" where
  "setFragment u f =
     (case unescape f encodeFragment of
        Inl e \<Rightarrow> Inl e
      | Inr frag \<Rightarrow>
          Inr (u\<lparr>Fragment := frag,
                 RawFragment := (if f = escape frag encodeFragment then [] else f)\<rparr>))"

text \<open>The query part of \<^verbatim>\<open>parse\<close>: the rest without the query, \<^verbatim>\<open>RawQuery\<close> and
  \<^verbatim>\<open>ForceQuery\<close>.\<close>

definition splitQuery :: "string \<Rightarrow> string \<times> string \<times> bool" where
  "splitQuery rest =
     (if HasSuffix rest ''?'' \<and> Count rest ''?'' = 1 then (take (length rest - 1) rest, [], True)
      else (case Cut rest ''?'' of (r, q, found) \<Rightarrow> (r, q, False)))"

text \<open>The authority part of \<^verbatim>\<open>parse\<close> and the final \<^verbatim>\<open>setPath\<close>; \<^verbatim>\<open>viaRequest\<close> is
  false for \<^verbatim>\<open>url.Parse\<close>.\<close>

definition parseAuthorityAndPath :: "URL \<Rightarrow> string \<Rightarrow> error + URL" where
  "parseAuthorityAndPath u rest =
     (if (Scheme u \<noteq> [] \<or> \<not> HasPrefix rest ''///'') \<and> HasPrefix rest ''//'' then
        (let authority0 = drop 2 rest;
             authority = (case Index authority0 ''/'' of None \<Rightarrow> authority0 | Some i \<Rightarrow> take i authority0);
             rest' = (case Index authority0 ''/'' of None \<Rightarrow> [] | Some i \<Rightarrow> drop i authority0)
         in case parseAuthority authority of
              Inl e \<Rightarrow> Inl e
            | Inr host \<Rightarrow> setPath (u\<lparr>Host := host\<rparr>) rest')
      else setPath u rest)"

definition parse :: "string \<Rightarrow> error + URL" where
  "parse rawURL =
     (if stringContainsCTLByte rawURL
        then Inl (UrlError ''net/url: invalid control character in URL'')
      else if rawURL = ''*'' then Inr (emptyURL\<lparr>Path := ''*''\<rparr>)
      else (case getScheme rawURL of
              Inl e \<Rightarrow> Inl e
            | Inr (scheme, rest0) \<Rightarrow>
               (case splitQuery rest0 of (rest, rawQuery, forceQuery) \<Rightarrow>
                 (let u = emptyURL\<lparr>Scheme := map toLowerByte scheme,
                                    RawQuery := rawQuery, ForceQuery := forceQuery\<rparr>
                  in if \<not> HasPrefix rest ''/'' \<and> Scheme u \<noteq> [] then Inr (u\<lparr>Opaque := rest\<rparr>)
                     else if \<not> HasPrefix rest ''/'' \<and> Contains (fst (Cut rest ''/'')) '':''
                       then Inl (UrlError ''first path segment in URL cannot contain colon'')
                     else parseAuthorityAndPath u rest))))"

definition Parse :: "string \<Rightarrow> error + URL" where
  "Parse rawURL =
     (case Cut rawURL ''#'' of (u, frag, found) \<Rightarrow>
       (case parse u of
          Inl e \<Rightarrow> Inl (UrlParseError u e)
        | Inr url \<Rightarrow>
           if frag = [] then Inr url
           else (case setFragment url frag of
                   Inl e \<Rightarrow> Inl (UrlParseError rawURL e)
                 | Inr url' \<Rightarrow> Inr url')))"

section \<open>White space (package unicode) and \<^verbatim>\<open>strings.TrimSpace\<close>\<close>

text \<open>
  \<^verbatim>\<open>unicode.IsSpace\<close> holds of the code points U+0009 to U+000D, U+0020, U+0085, U+00A0,
  U+1680, U+2000 to U+200A, U+2028, U+2029, U+202F, U+205F and U+3000. \<open>spaceRunes\<close> lists
  their UTF-8 encodings. Go decodes a string rune by rune; a byte sequence that is not valid
  UTF-8 decodes to U+FFFD (one byte wide), which is not white space, and no encoding in the
  list can start on a continuation byte of another rune, so looking for one of these byte
  sequences at a position finds exactly the white-space runes.
\<close>

definition spaceRunes :: "string list" where
  "spaceRunes =
     [[CHR 0x09], [CHR 0x0A], [CHR 0x0B], [CHR 0x0C], [CHR 0x0D], [CHR 0x20],
      [CHR 0xC2, CHR 0x85], [CHR 0xC2, CHR 0xA0],
      [CHR 0xE1, CHR 0x9A, CHR 0x80],
      [CHR 0xE2, CHR 0x80, CHR 0x80], [CHR 0xE2, CHR 0x80, CHR 0x81],
      [CHR 0xE2, CHR 0x80, CHR 0x82], [CHR 0xE2, CHR 0x80, CHR 0x83],
      [CHR 0xE2, CHR 0x80, CHR 0x84], [CHR 0xE2, CHR 0x80, CHR 0x85],
      [CHR 0xE2, CHR 0x80, CHR 0x86], [CHR 0xE2, CHR 0x80, CHR 0x87],
      [CHR 0xE2, CHR 0x80, CHR 0x88], [CHR 0xE2, CHR 0x80, CHR 0x89],
      [CHR 0xE2, CHR 0x80, CHR 0x8A],
      [CHR 0xE2, CHR 0x80, CHR 0xA8], [CHR 0xE2, CHR 0x80, CHR 0xA9],
      [CHR 0xE2, CHR 0x80, CHR 0xAF],
      [CHR 0xE2, CHR 0x81, CHR 0x9F],
      [CHR 0xE3, CHR 0x80, CHR 0x80]]"

text \<open>The width in bytes of the white-space rune a string starts with, or ends with;
  0 when there is none.\<close>

definition spaceWidth :: "string \<Rightarrow> nat" where
  "spaceWidth s = (case find (HasPrefix s) spaceRunes of None \<Rightarrow> 0 | Some p \<Rightarrow> length p)"

definition lastSpaceWidth :: "string \<Rightarrow> nat" where
  "lastSpaceWidth s = (case find (HasSuffix s) spaceRunes of None \<Rightarrow> 0 | Some p \<Rightarrow> length p)"

lemma spaceWidth_le: "spaceWidth s \<le> length s"
  by (auto simp: spaceWidth_def HasPrefix_def split: option.splits dest!: find_Some_iff [THEN iffD1])

lemma lastSpaceWidth_le: "lastSpaceWidth s \<le> length s"
  by (auto simp: lastSpaceWidth_def HasSuffix_def split: option.splits dest!: find_Some_iff [THEN iffD1])

function TrimLeftSpace :: "string \<Rightarrow> string" where
  "TrimLeftSpace s = (if spaceWidth s = 0 then s else TrimLeftSpace (drop (spaceWidth s) s))"
  by pat_completeness auto
termination
proof (relation "measure length")
  show "wf (measure length)" by simp
next
  fix s :: string
  assume "spaceWidth s \<noteq> 0"
  then have "length s - spaceWidth s < length s"
    using spaceWidth_le [of s] by arith
  then show "(drop (spaceWidth s) s, s) \<in> measure length" by simp
qed

function TrimRightSpace :: "string \<Rightarrow> string" where
  "TrimRightSpace s =
     (if lastSpaceWidth s = 0 then s else TrimRightSpace (take (length s - lastSpaceWidth s) s))"
  by pat_completeness auto
termination
proof (relation "measure length")
  show "wf (measure length)" by simp
next
  fix s :: string
  assume "lastSpaceWidth s \<noteq> 0"
  then have "length s - lastSpaceWidth s < length s"
    using lastSpaceWidth_le [of s] by arith
  then show "(take (length s - lastSpaceWidth s) s, s) \<in> measure length" by simp
qed

declare TrimLeftSpace.simps [simp del] TrimRightSpace.simps [simp del]

definition TrimSpace :: "string \<Rightarrow> string" where
  "TrimSpace s = TrimRightSpace (TrimLeftSpace s)"

section \<open>Running git (package util)\<close>

text \<open>
  What \<^verbatim>\<open>cmd.Run\<close> leaves behind: the two captured streams, the process state (absent
  when the process never started; \<^verbatim>\<open>ExitCode\<close> then reports -1) and the error of
  \<^verbatim>\<open>Run\<close>. The operating system is the function \<open>exec\<close> from a command line and a working
  directory to such a result.
\<close>

record ProcResult =
  procStdout :: string
  procStderr :: string
  procState :: "int option"
  procErr :: "error option"

type_synonym Exec = "string list \<Rightarrow> string \<Rightarrow> ProcResult"

definition RunCommand :: "Exec \<Rightarrow> string list \<Rightarrow> string \<Rightarrow> string \<times> int \<times> error option" where
  "RunCommand exec cmd cwd =
     (let r = exec cmd cwd;
          err = procErr r;
          exitCode = (case procState r of None \<Rightarrow> - 1 | Some c \<Rightarrow> c);
          output = procStdout r;
          output' = (if err \<noteq> None then output @ [CHR 0x0A] @ procStderr r else output)
      in (output', exitCode, err))"

section \<open>The Repository Identity Resolver and the Branch Resolver\<close>

definition getRepoURL :: "Exec \<Rightarrow> string \<Rightarrow> error + string" where
  "getRepoURL exec cwd =
     (case RunCommand exec [''git'', ''-C'', cwd, ''config'', ''--get'', ''remote.origin.url''] cwd of
        (output, exitCode, Some err) \<Rightarrow> Inl (GetRepoURLFailed err exitCode output)
      | (output, exitCode, None) \<Rightarrow> Inr (TrimSpace output))"

definition isSSHURL :: "string \<Rightarrow> bool" where
  "isSSHURL repoURL = HasPrefix repoURL ''git@''"

text \<open>\<^verbatim>\<open>strings.Split\<close> returns at least one piece, so the index \<^verbatim>\<open>len - 1\<close> of
  \<^verbatim>\<open>extractRepoName\<close> is in range and the element read is the last one.\<close>

definition extractRepoName :: "string \<Rightarrow> string" where
  "extractRepoName repoPath =
     (let repoNameParts = Split repoPath ''/'';
          repoName = repoNameParts ! (length repoNameParts - 1)
      in TrimSuffix repoName ''.git'')"

definition getRepoNameFromSSHURL :: "string \<Rightarrow> error + string" where
  "getRepoNameFromSSHURL repoURL =
     (let parts = Split repoURL '':''
      in if length parts \<noteq> 2 then Inl (InvalidSSHURLFormat repoURL)
         else Inr (extractRepoName (parts ! 1)))"

definition getRepoNameFromHTTPSURL :: "string \<Rightarrow> error + string" where
  "getRepoNameFromHTTPSURL repoURL =
     (case Parse repoURL of
        Inl err \<Rightarrow> Inl (ParseRepoURLFailed err)
      | Inr parsedURL \<Rightarrow> Inr (extractRepoName (Path parsedURL)))"

definition getRepoName :: "Exec \<Rightarrow> string \<Rightarrow> error + string" where
  "getRepoName exec cwd =
     (case getRepoURL exec cwd of
        Inl err \<Rightarrow> Inl err
      | Inr repoURL \<Rightarrow>
          if isSSHURL repoURL then getRepoNameFromSSHURL repoURL
          else getRepoNameFromHTTPSURL repoURL)"

definition getCurrentBranch :: "Exec \<Rightarrow> string \<Rightarrow> error + string" where
  "getCurrentBranch exec gitDir =
     (case RunCommand exec [''git'', ''-C'', gitDir, ''rev-parse'', ''--abbrev-ref'', ''HEAD''] gitDir of
        (output, exitCode, Some err) \<Rightarrow> Inl (GetCurrentBranchFailed err exitCode output)
      | (output, exitCode, None) \<Rightarrow> Inr (TrimSpace output))"

definition executeGitShortlog :: "Exec \<Rightarrow> string \<Rightarrow> string \<Rightarrow> error + string" where
  "executeGitShortlog exec cwd currentBranch =
     (case RunCommand exec [''git'', ''-C'', cwd, ''-c'', ''core.excludesFile='', ''shortlog'',
                            ''--summary'', ''--numbered'', currentBranch] cwd of
        (output, exitCode, Some err) \<Rightarrow> Inl (GitShortlogFailed err exitCode output)
      | (output, exitCode, None) \<Rightarrow> Inr output)"

text \<open>A git that answers every command with the same standard output and exit status 0.\<close>

definition gitAnswers :: "string \<Rightarrow> Exec" where
  "gitAnswers out = (\<lambda>cmd cwd. \<lparr>procStdout = out, procStderr = [], procState = Some 0, procErr = None\<rparr>)"


section \<open>The Link Synthesizer\<close>

text \<open>\<^verbatim>\<open>generateSearchURLs\<close>: the body of the loop, and the loop with its accumulator
  \<^verbatim>\<open>authorsWithURL\<close>.\<close>

definition searchURLFor :: "string \<Rightarrow> string \<Rightarrow> string" where
  "searchURLFor authorName repoName =
     (let searchQuery = authorName @ '' '' @ repoName;
          baseURL = ''https://www.google.com/search'';
          queryParams = [(''tbm'', [''isch'']), (''q'', [searchQuery])]
      in baseURL @ ''?'' @ Encode queryParams)"

fun generateLoop :: "Author list \<Rightarrow> string \<Rightarrow> Author list \<Rightarrow> Author list" where
  "generateLoop [] repoName authorsWithURL = authorsWithURL"
| "generateLoop (author # authors) repoName authorsWithURL =
     generateLoop authors repoName
       (authorsWithURL @
         [author\<lparr>RepoName := repoName, SearchURL := searchURLFor (Name author) repoName\<rparr>])"

definition generateSearchURLs :: "Author list \<Rightarrow> string \<Rightarrow> Author list" where
  "generateSearchURLs authors repoName = generateLoop authors repoName []"

section \<open>Properties of the Link Synthesizer\<close>

lemma generateLoop_map:
  "generateLoop authors repoName acc =
     acc @ map (\<lambda>a. a\<lparr>RepoName := repoName, SearchURL := searchURLFor (Name a) repoName\<rparr>) authors"
  by (induction authors arbitrary: acc) simp_all

lemma generateSearchURLs_map:
  "generateSearchURLs authors repoName =
     map (\<lambda>a. a\<lparr>RepoName := repoName, SearchURL := searchURLFor (Name a) repoName\<rparr>) authors"
  by (simp add: generateSearchURLs_def generateLoop_map)

lemma sortKeys_tbm_q: "sortKeys [''tbm'', ''q''] = [''q'', ''tbm'']"
  by (simp add: sortKeys_def byte_def)

lemma QueryEscape_tbm: "QueryEscape ''tbm'' = ''tbm''"
  by (simp add: QueryEscape_def escape_def escapeByte_def shouldEscape_def isAlnum_def byte_def)

lemma QueryEscape_isch: "QueryEscape ''isch'' = ''isch''"
  by (simp add: QueryEscape_def escape_def escapeByte_def shouldEscape_def isAlnum_def byte_def)

lemma QueryEscape_q: "QueryEscape ''q'' = ''q''"
  by (simp add: QueryEscape_def escape_def escapeByte_def shouldEscape_def isAlnum_def byte_def)

lemma searchURLFor_eq:
  "searchURLFor n r = ''https://www.google.com/search?q='' @ QueryEscape (n @ '' '' @ r) @ ''&tbm=isch''"
  by (simp add: searchURLFor_def Encode_def sortKeys_tbm_q valuesOf_def
      QueryEscape_tbm QueryEscape_isch QueryEscape_q)

text \<open>
  C1. Every record's search URL is the base endpoint, a question mark, and the query string
  with the two parameters in key order: \<^verbatim>\<open>q\<close> (the escaped text "name, space, repository
  name") and then \<^verbatim>\<open>tbm=isch\<close>. Decoding that query string with \<^verbatim>\<open>url.ParseQuery\<close>
  gives back exactly the two parameters, without an error. The function returns a plain list:
  it has no error result.
\<close>

theorem generateSearchURLs_url:
  "map SearchURL (generateSearchURLs authors repoName)
     = map (\<lambda>a. ''https://www.google.com/search'' @ ''?'' @
                ''q='' @ QueryEscape (Name a @ '' '' @ repoName) @ ''&tbm=isch'') authors
   \<and> ParseQuery (''q='' @ QueryEscape (n @ '' '' @ repoName) @ ''&tbm=isch'')
     = ([''q'' \<mapsto> [n @ '' '' @ repoName], ''tbm'' \<mapsto> [''isch'']], None)"
  using ParseQuery_search [of "n @ '' '' @ repoName"]
  by (simp add: generateSearchURLs_map comp_def searchURLFor_eq)

theorem generateSearchURLs_url_witness:
  "map SearchURL (generateSearchURLs
      [\<lparr>Name = ''Ada Lovelace'', CommitCount = ''42'', RepoName = [], SearchURL = []\<rparr>] ''widget'')
     = [''https://www.google.com/search?q=Ada+Lovelace+widget&tbm=isch'']
   \<and> ParseQuery ''q=Ada+Lovelace+widget&tbm=isch''
     = ([''q'' \<mapsto> [''Ada Lovelace widget''], ''tbm'' \<mapsto> [''isch'']], None)"
proof -
  have e: "QueryEscape ''Ada Lovelace widget'' = ''Ada+Lovelace+widget''"
    by (simp add: QueryEscape_def escape_def escapeByte_def shouldEscape_def isAlnum_def byte_def)
  show ?thesis
    using generateSearchURLs_url
      [of "[\<lparr>Name = ''Ada Lovelace'', CommitCount = ''42'', RepoName = [], SearchURL = []\<rparr>]"
          "''widget''" "''Ada Lovelace''"]
    by (simp add: e)
qed

text \<open>
  C9. The Link Synthesizer sets \<^verbatim>\<open>RepoName\<close> and \<^verbatim>\<open>SearchURL\<close> together on every record:
  the repository name given, and the URL built from the record's name and that repository
  name, which is never the empty string. It leaves \<^verbatim>\<open>Name\<close> and \<^verbatim>\<open>CommitCount\<close> as they
  were, and keeps the length and the order of the sequence.
\<close>

theorem generateSearchURLs_frame:
  "length (generateSearchURLs authors repoName) = length authors \<and>
   map Name (generateSearchURLs authors repoName) = map Name authors \<and>
   map CommitCount (generateSearchURLs authors repoName) = map CommitCount authors \<and>
   map RepoName (generateSearchURLs authors repoName) = map (\<lambda>a. repoName) authors \<and>
   map SearchURL (generateSearchURLs authors repoName)
     = map (\<lambda>a. searchURLFor (Name a) repoName) authors \<and>
   map SearchURL (generateSearchURLs authors repoName)
     = map (\<lambda>a. ''https://www.google.com/search?q='' @ QueryEscape (Name a @ '' '' @ repoName)
                  @ ''&tbm=isch'') authors \<and>
   (\<forall>a \<in> set (generateSearchURLs authors repoName).
      RepoName a = repoName \<and> SearchURL a \<noteq> []
      \<and> take 30 (SearchURL a) = ''https://www.google.com/search?'')"
  by (auto simp: generateSearchURLs_map comp_def searchURLFor_eq)

theorem generateSearchURLs_frame_witness:
  "generateSearchURLs
      [\<lparr>Name = ''Ada Lovelace'', CommitCount = ''42'', RepoName = [], SearchURL = []\<rparr>,
       \<lparr>Name = ''Grace Hopper'', CommitCount = ''7'', RepoName = ''old'', SearchURL = ''x''\<rparr>]
      ''widget''
     = [\<lparr>Name = ''Ada Lovelace'', CommitCount = ''42'', RepoName = ''widget'',
          SearchURL = ''https://www.google.com/search?q=Ada+Lovelace+widget&tbm=isch''\<rparr>,
        \<lparr>Name = ''Grace Hopper'', CommitCount = ''7'', RepoName = ''widget'',
          SearchURL = ''https://www.google.com/search?q=Grace+Hopper+widget&tbm=isch''\<rparr>]"
proof -
  let ?in = "[\<lparr>Name = ''Ada Lovelace'', CommitCount = ''42'', RepoName = [], SearchURL = []\<rparr>,
       \<lparr>Name = ''Grace Hopper'', CommitCount = ''7'', RepoName = ''old'', SearchURL = ''x''\<rparr>]"
  have e: "QueryEscape ''Ada Lovelace widget'' = ''Ada+Lovelace+widget''"
    "QueryEscape ''Grace Hopper widget'' = ''Grace+Hopper+widget''"
    by (simp_all add: QueryEscape_def escape_def escapeByte_def shouldEscape_def isAlnum_def byte_def)
  obtain a b where ab: "generateSearchURLs ?in ''widget'' = [a, b]"
    by (simp add: generateSearchURLs_map)
  have "Name a = ''Ada Lovelace'' \<and> CommitCount a = ''42'' \<and> RepoName a = ''widget''
        \<and> SearchURL a = ''https://www.google.com/search?q=Ada+Lovelace+widget&tbm=isch''
        \<and> Name b = ''Grace Hopper'' \<and> CommitCount b = ''7'' \<and> RepoName b = ''widget''
        \<and> SearchURL b = ''https://www.google.com/search?q=Grace+Hopper+widget&tbm=isch''"
    using generateSearchURLs_frame [of ?in "''widget''"] by (simp add: ab e searchURLFor_eq)
  then have "a = \<lparr>Name = ''Ada Lovelace'', CommitCount = ''42'', RepoName = ''widget'',
          SearchURL = ''https://www.google.com/search?q=Ada+Lovelace+widget&tbm=isch''\<rparr>"
    and "b = \<lparr>Name = ''Grace Hopper'', CommitCount = ''7'', RepoName = ''widget'',
          SearchURL = ''https://www.google.com/search?q=Grace+Hopper+widget&tbm=isch''\<rparr>"
    by simp_all
  then show ?thesis by (simp add: ab)
qed

section \<open>Package strings: \<^verbatim>\<open>Fields\<close> and \<^verbatim>\<open>Join\<close>\<close>

text \<open>\<^verbatim>\<open>strings.Fields\<close> cuts a string around each run of white-space runes and returns the
  non-empty pieces. \<open>cur\<close> holds the bytes of the field being read.\<close>

function fieldsLoop :: "string \<Rightarrow> string \<Rightarrow> string list" where
  "fieldsLoop s cur =
     (if s = [] then (if cur = [] then [] else [cur])
      else if spaceWidth s > 0
        then (if cur = [] then [] else [cur]) @ fieldsLoop (drop (spaceWidth s) s) []
      else fieldsLoop (tl s) (cur @ [hd s]))"
  by pat_completeness auto
termination
proof (relation "measure (\<lambda>(s, cur). length s)")
  show "wf (measure (\<lambda>(s, cur). length s))" by simp
next
  fix s cur :: string
  assume "s \<noteq> []" "0 < spaceWidth s"
  then have "length s - spaceWidth s < length s" by (cases s) auto
  then show "((drop (spaceWidth s) s, []), (s, cur)) \<in> measure (\<lambda>(s, cur). length s)" by simp
next
  fix s cur :: string
  assume "s \<noteq> []"
  then show "((tl s, cur @ [hd s]), (s, cur)) \<in> measure (\<lambda>(s, cur). length s)"
    by (cases s) auto
qed

declare fieldsLoop.simps [simp del]

definition Fields :: "string \<Rightarrow> string list" where
  "Fields s = fieldsLoop s []"

fun Join :: "string list \<Rightarrow> string \<Rightarrow> string" where
  "Join [] sep = []"
| "Join [a] sep = a"
| "Join (a # b # elems) sep = a @ sep @ Join (b # elems) sep"

section \<open>Package bufio: \<^verbatim>\<open>Scanner\<close> with \<^verbatim>\<open>ScanLines\<close>\<close>

text \<open>
  A \<^verbatim>\<open>bufio.Scanner\<close> reading a string through the split function \<^verbatim>\<open>ScanLines\<close>. Each
  call of \<^verbatim>\<open>Scan\<close> delivers the bytes up to the next line feed, without a final carriage
  return; the bytes after the last line feed are a line of their own when there are any.
  The scanner's buffer grows to \<^verbatim>\<open>MaxScanTokenSize\<close> bytes and no further: when that many
  bytes hold no line feed, \<^verbatim>\<open>Scan\<close> records \<^verbatim>\<open>ErrTooLong\<close> and returns false, here and
  on every later call. \<open>scanLines\<close> is the list of the tokens for which \<^verbatim>\<open>Scan\<close>
  returns true.
\<close>

definition MaxScanTokenSize :: nat where
  "MaxScanTokenSize = 64 * 1024"

definition dropCR :: "string \<Rightarrow> string" where
  "dropCR data = (if length data > 0 \<and> data ! (length data - 1) = CHR 0x0D
                  then take (length data - 1) data else data)"

function scanLines :: "string \<Rightarrow> string list" where
  "scanLines data =
     (if data = [] then []
      else case Index data [CHR 0x0A] of
             Some i \<Rightarrow>
               if i \<ge> MaxScanTokenSize then []
               else dropCR (take i data) # scanLines (drop (i + 1) data)
           | None \<Rightarrow>
               if length data \<ge> MaxScanTokenSize then [] else [dropCR data])"
  by pat_completeness auto
termination
  by (relation "measure length") auto

declare scanLines.simps [simp del]

section \<open>The Summary Parser\<close>

text \<open>\<^verbatim>\<open>parseLogOutput\<close>: the loop over the scanner's lines with its accumulator
  \<^verbatim>\<open>authors\<close>. The error of the scanner is never read, and the error result is always nil.\<close>

fun parseLines :: "string list \<Rightarrow> Author list \<Rightarrow> Author list" where
  "parseLines [] authors = authors"
| "parseLines (line # rest) authors =
     (let fields = Fields line
      in if length fields \<ge> 2
         then parseLines rest
                (authors @ [\<lparr>Name = Join (drop 1 fields) '' '', CommitCount = fields ! 0,
                             RepoName = [], SearchURL = []\<rparr>])
         else parseLines rest authors)"

definition parseLogOutput :: "string \<Rightarrow> Author list \<times> error option" where
  "parseLogOutput output = (parseLines (scanLines output) [], None)"

section \<open>The file system (package os)\<close>

text \<open>
  The part of the operating system the Report Writer meets: the files by name, the names
  at which \<^verbatim>\<open>os.Create\<close> fails, and the number of bytes the device still takes. A
  \<^verbatim>\<open>Write\<close> to a file appends as many bytes as the device takes and reports an error when
  that is not all of them.
\<close>

record FS =
  files :: "string \<rightharpoonup> string"
  denied :: "string \<Rightarrow> bool"
  room :: nat

definition contentOf :: "FS \<Rightarrow> string \<Rightarrow> string" where
  "contentOf fs name = (case files fs name of None \<Rightarrow> [] | Some c \<Rightarrow> c)"

text \<open>\<^verbatim>\<open>os.Create\<close> creates the file or truncates it.\<close>

definition osCreate :: "FS \<Rightarrow> string \<Rightarrow> FS \<times> error option" where
  "osCreate fs name =
     (if denied fs name then (fs, Some (PathError name))
      else (fs\<lparr>files := (files fs)(name \<mapsto> [])\<rparr>, None))"

definition fileWrite :: "FS \<Rightarrow> string \<Rightarrow> string \<Rightarrow> FS \<times> nat \<times> error option" where
  "fileWrite fs name p =
     (let n = min (length p) (room fs)
      in (fs\<lparr>files := (files fs)(name \<mapsto> contentOf fs name @ take n p), room := room fs - n\<rparr>,
          n,
          if n < length p then Some (PathError name) else None))"

section \<open>Package bufio: \<^verbatim>\<open>Writer\<close>\<close>

text \<open>A \<^verbatim>\<open>bufio.Writer\<close> of the default size on a file: the buffered bytes
  (\<^verbatim>\<open>buf[0:n]\<close>) and the sticky error.\<close>

record Writer =
  wbuf :: string
  werr :: "error option"

definition defaultBufSize :: nat where
  "defaultBufSize = 4096"

definition NewWriter :: Writer where
  "NewWriter = \<lparr>wbuf = [], werr = None\<rparr>"

definition Available :: "Writer \<Rightarrow> nat" where
  "Available b = defaultBufSize - length (wbuf b)"

definition Flush :: "string \<Rightarrow> Writer \<Rightarrow> FS \<Rightarrow> Writer \<times> FS \<times> error option" where
  "Flush name b fs =
     (if werr b \<noteq> None then (b, fs, werr b)
      else if length (wbuf b) = 0 then (b, fs, None)
      else (case fileWrite fs name (wbuf b) of (fs', n, err) \<Rightarrow>
        (let err' = (if n < length (wbuf b) \<and> err = None then Some ErrShortWrite else err)
         in if err' \<noteq> None then (\<lparr>wbuf = drop n (wbuf b), werr = err'\<rparr>, fs', err')
            else (\<lparr>wbuf = [], werr = None\<rparr>, fs', None))))"

text \<open>One turn of the loop of \<^verbatim>\<open>Writer.Write\<close> (and of \<^verbatim>\<open>WriteString\<close>, which on a file
  does the same): a large write on an empty buffer goes to the file directly, otherwise the
  buffer is filled and flushed. The result is the new state and the number of bytes taken
  from \<open>p\<close>.\<close>

definition writeStep :: "string \<Rightarrow> Writer \<Rightarrow> FS \<Rightarrow> string \<Rightarrow> Writer \<times> FS \<times> nat" where
  "writeStep name b fs p =
     (if length (wbuf b) = 0 then
        (case fileWrite fs name p of (fs', n, err) \<Rightarrow> (b\<lparr>werr := err\<rparr>, fs', n))
      else
        (let n = min (Available b) (length p)
         in case Flush name (b\<lparr>wbuf := wbuf b @ take n p\<rparr>) fs of (b', fs', err) \<Rightarrow> (b', fs', n)))"

definition writeMeasure :: "Writer \<Rightarrow> string \<Rightarrow> nat" where
  "writeMeasure b p =
     (if werr b \<noteq> None then 0 else 2 * length p + (if wbuf b = [] then 1 else 2))"

lemma writeStep_decreases:
  assumes "length p > Available b" and "werr b = None" and "writeStep name b fs p = (b', fs', n)"
  shows "writeMeasure b' (drop n p) < writeMeasure b p"
proof (cases "wbuf b = []")
  case True
  obtain fs1 n1 err1 where f: "fileWrite fs name p = (fs1, n1, err1)"
    by (cases "fileWrite fs name p") auto
  with True assms(3) have b': "b' = b\<lparr>werr := err1\<rparr>" and n: "n = n1"
    by (simp_all add: writeStep_def)
  from f have "err1 = None \<longrightarrow> n1 = length p"
    by (auto simp: fileWrite_def Let_def split: if_splits)
  moreover have "0 < length p" using assms(1) by (cases p) simp_all
  ultimately show ?thesis using assms(2) True b' n
    by (auto simp: writeMeasure_def)
next
  case False
  let ?k = "min (Available b) (length p)"
  obtain b1 fs1 err1 where f: "Flush name (b\<lparr>wbuf := wbuf b @ take ?k p\<rparr>) fs = (b1, fs1, err1)"
    by (cases "Flush name (b\<lparr>wbuf := wbuf b @ take ?k p\<rparr>) fs") auto
  with False assms(3) have b': "b' = b1" and n: "n = ?k"
    by (simp_all add: writeStep_def Let_def)
  from f assms(2) False have "werr b1 \<noteq> None \<or> wbuf b1 = []"
    by (auto simp: Flush_def Let_def split: if_splits prod.splits)
  then show ?thesis using assms(2) False b' n
    by (auto simp: writeMeasure_def)
qed

function writeLoop :: "string \<Rightarrow> Writer \<Rightarrow> FS \<Rightarrow> string \<Rightarrow> nat \<Rightarrow> Writer \<times> FS \<times> string \<times> nat" where
  "writeLoop name b fs p nn =
     (if length p > Available b \<and> werr b = None then
        (case writeStep name b fs p of (b', fs', n) \<Rightarrow> writeLoop name b' fs' (drop n p) (nn + n))
      else (b, fs, p, nn))"
  by pat_completeness auto
termination
  by (relation "measure (\<lambda>(name, b, fs, p, nn). writeMeasure b p)")
     (auto intro: writeStep_decreases [OF _ _ sym])

declare writeLoop.simps [simp del]

definition writerWrite :: "string \<Rightarrow> Writer \<Rightarrow> FS \<Rightarrow> string \<Rightarrow> Writer \<times> FS \<times> nat \<times> error option" where
  "writerWrite name b fs p =
     (case writeLoop name b fs p 0 of (b', fs', p', nn) \<Rightarrow>
        if werr b' \<noteq> None then (b', fs', nn, werr b')
        else (b'\<lparr>wbuf := wbuf b' @ p'\<rparr>, fs', nn + length p', None))"

section \<open>The template (package text/template)\<close>

text \<open>
  The template file \<^verbatim>\<open>author_template.tmpl\<close> is embedded in the program and is not part of
  the source at hand, so the result of \<^verbatim>\<open>template.ParseFS\<close> is a parameter: a parse error,
  or a template. Executing a template on a record writes pieces of text to the writer one
  after the other (one \<^verbatim>\<open>Write\<close> for each text or action node) and can end with an
  evaluation error after the pieces written so far; a failing \<^verbatim>\<open>Write\<close> ends the execution
  with that error.
\<close>

type_synonym Template = "Author \<Rightarrow> string list \<times> error option"

fun executeChunks :: "string \<Rightarrow> string list \<Rightarrow> Writer \<Rightarrow> FS \<Rightarrow> Writer \<times> FS \<times> error option" where
  "executeChunks name [] b fs = (b, fs, None)"
| "executeChunks name (c # cs) b fs =
     (case writerWrite name b fs c of
        (b', fs', nn, Some err) \<Rightarrow> (b', fs', Some err)
      | (b', fs', nn, None) \<Rightarrow> executeChunks name cs b' fs')"

definition Execute :: "Template \<Rightarrow> string \<Rightarrow> Writer \<Rightarrow> FS \<Rightarrow> Author \<Rightarrow> Writer \<times> FS \<times> error option" where
  "Execute tmpl name b fs author =
     (case tmpl author of (chunks, evalErr) \<Rightarrow>
       (case executeChunks name chunks b fs of
          (b', fs', Some err) \<Rightarrow> (b', fs', Some err)
        | (b', fs', None) \<Rightarrow> (b', fs', evalErr)))"

section \<open>The Report Writer\<close>

text \<open>The loop of \<^verbatim>\<open>writeMarkdownFile\<close> over the records.\<close>

fun writeAuthors :: "Template \<Rightarrow> string \<Rightarrow> Author list \<Rightarrow> Writer \<Rightarrow> FS \<Rightarrow> Writer \<times> FS \<times> error option" where
  "writeAuthors tmpl name [] b fs = (b, fs, None)"
| "writeAuthors tmpl name (author # authors) b fs =
     (case Execute tmpl name b fs author of
        (b1, fs1, Some err) \<Rightarrow> (b1, fs1, Some (ExecuteTemplateFailed err))
      | (b1, fs1, None) \<Rightarrow>
         (case writerWrite name b1 fs1 [CHR 0x0A] of
            (b2, fs2, nn, Some err) \<Rightarrow> (b2, fs2, Some (WriteNewlineFailed err))
          | (b2, fs2, nn, None) \<Rightarrow> writeAuthors tmpl name authors b2 fs2))"

text \<open>\<^verbatim>\<open>writeMarkdownFile\<close>. The result of the final \<^verbatim>\<open>writer.Flush()\<close> is not read, and
  on an early return the buffer is not flushed.\<close>

definition writeMarkdownFile :: "error + Template \<Rightarrow> string \<Rightarrow> Author list \<Rightarrow> FS \<Rightarrow> FS \<times> error option" where
  "writeMarkdownFile templateFS filename authors fs =
     (case osCreate fs filename of
        (fs1, Some err) \<Rightarrow> (fs1, Some (CreateFileFailed err))
      | (fs1, None) \<Rightarrow>
         (case templateFS of
            Inl err \<Rightarrow> (fs1, Some (ParseTemplateFailed err))
          | Inr tmpl \<Rightarrow>
             (case writeAuthors tmpl filename authors NewWriter fs1 of
                (b, fs2, Some err) \<Rightarrow> (fs2, Some err)
              | (b, fs2, None) \<Rightarrow>
                 (case Flush filename b fs2 of (b', fs3, ignored) \<Rightarrow> (fs3, None)))))"

section \<open>The whole run\<close>

text \<open>\<^verbatim>\<open>Run\<close> prints one message: an error with the stage's prefix on standard error, or
  the confirmation on standard output. The result is the file system after the run and
  that message.\<close>

datatype Message = ErrorMessage string error | SuccessMessage

definition Run :: "Exec \<Rightarrow> error + Template \<Rightarrow> FS \<Rightarrow> string \<Rightarrow> FS \<times> Message" where
  "Run exec templateFS fs cwd =
     (case getRepoName exec cwd of
        Inl err \<Rightarrow> (fs, ErrorMessage ''Error getting repository name:'' err)
      | Inr repoName \<Rightarrow>
     (case getCurrentBranch exec cwd of
        Inl err \<Rightarrow> (fs, ErrorMessage ''Error getting current branch:'' err)
      | Inr currentBranch \<Rightarrow>
     (case executeGitShortlog exec cwd currentBranch of
        Inl err \<Rightarrow> (fs, ErrorMessage ''Error executing git shortlog:'' err)
      | Inr output \<Rightarrow>
     (case parseLogOutput output of
        (authors, Some err) \<Rightarrow> (fs, ErrorMessage ''Error parsing log output:'' err)
      | (authors, None) \<Rightarrow>
     (case writeMarkdownFile templateFS ''authors.md'' (generateSearchURLs authors repoName) fs of
        (fs', Some err) \<Rightarrow> (fs', ErrorMessage ''Error writing markdown file:'' err)
      | (fs', None) \<Rightarrow> (fs', SuccessMessage))))))"

text \<open>Fixtures for the examples: a git with given answers to the three queries, a
  template that renders a markdown line, and an empty file system with room for
  \<open>n\<close> bytes.\<close>

definition gitWith :: "ProcResult \<Rightarrow> ProcResult \<Rightarrow> ProcResult \<Rightarrow> Exec" where
  "gitWith remote branch shortlog =
     (\<lambda>cmd cwd. if ''config'' \<in> set cmd then remote
                else if ''rev-parse'' \<in> set cmd then branch
                else shortlog)"

definition succeeded :: "string \<Rightarrow> ProcResult" where
  "succeeded out = \<lparr>procStdout = out, procStderr = [], procState = Some 0, procErr = None\<rparr>"

definition exited :: "int \<Rightarrow> string \<Rightarrow> ProcResult" where
  "exited code errOut =
     \<lparr>procStdout = [], procStderr = errOut, procState = Some code,
      procErr = Some (ExecError ''exit status'')\<rparr>"

definition markdownLine :: Template where
  "markdownLine a = ([''- ['', Name a, ''](''  , SearchURL a, '') '', CommitCount a], None)"

definition emptyFS :: "nat \<Rightarrow> FS" where
  "emptyFS n = \<lparr>files = Map.empty, denied = (\<lambda>name. False), room = n\<rparr>"

section \<open>Facts about the string functions\<close>

lemma Split_length: "length (Split s [c]) = Suc (count_list s c)"
proof (induction "length s" arbitrary: s rule: less_induct)
  case less
  show ?case
  proof (cases "c \<in> set s")
    case False
    then show ?thesis by (simp add: Split_notin)
  next
    case True
    then obtain a b where s: "s = a @ c # b" and a: "c \<notin> set a"
      by (auto dest: split_list_first)
    have "length b < length s" using s by simp
    then have "length (Split b [c]) = Suc (count_list b c)" by (rule less)
    then show ?thesis using a by (simp add: s Split_first)
  qed
qed

lemma Split_not_Nil: "Split s [c] \<noteq> []"
  using Split_length [of s c] by (cases "Split s [c]") simp_all

lemma Split_last: "c \<notin> set b \<Longrightarrow> last (Split (a @ c # b) [c]) = b"
proof (induction "length a" arbitrary: a rule: less_induct)
  case less
  show ?case
  proof (cases "c \<in> set a")
    case False
    then show ?thesis using less.prems by (simp add: Split_first Split_notin)
  next
    case True
    then obtain a1 a2 where a: "a = a1 @ c # a2" and a1: "c \<notin> set a1"
      by (auto dest: split_list_first)
    have "length a2 < length a" using a by simp
    then have "last (Split (a2 @ c # b) [c]) = b" using less.prems by (rule less.hyps)
    moreover have "Split (a @ c # b) [c] = a1 # Split (a2 @ c # b) [c]"
      using Split_first [OF a1, of "a2 @ c # b"] by (simp add: a)
    ultimately show ?thesis by (simp add: Split_not_Nil)
  qed
qed

lemma HasSuffix_append: "HasSuffix (r @ s) s"
  by (simp add: HasSuffix_def)



lemma extractRepoName_last:
  "extractRepoName repoPath = TrimSuffix (last (Split repoPath ''/'')) ''.git''"
  by (simp add: extractRepoName_def Let_def last_conv_nth Split_not_Nil)

lemma extractRepoName_segment:
  assumes "CHR ''/'' \<notin> set seg"
  shows "extractRepoName (a @ ''/'' @ seg) = TrimSuffix seg ''.git''"
    and "extractRepoName seg = TrimSuffix seg ''.git''"
proof -
  have "Split (a @ ''/'' @ seg) ''/'' ! (length (Split (a @ ''/'' @ seg) ''/'') - 1)
          = last (Split (a @ CHR ''/'' # seg) ''/'')"
    by (simp add: last_conv_nth Split_not_Nil)
  also have "\<dots> = seg" using assms by (rule Split_last)
  finally show "extractRepoName (a @ ''/'' @ seg) = TrimSuffix seg ''.git''"
    by (simp add: extractRepoName_def)
  show "extractRepoName seg = TrimSuffix seg ''.git''"
    using assms by (simp add: extractRepoName_def Split_notin)
qed

section \<open>Properties of the SSH path\<close>

lemma getRepoNameFromSSHURL_one_colon:
  assumes "CHR '':'' \<notin> set a"
  shows "getRepoNameFromSSHURL (a @ '':'' @ p)
           = (if CHR '':'' \<in> set p then Inl (InvalidSSHURLFormat (a @ '':'' @ p))
              else Inr (extractRepoName p))"
proof -
  have s: "Split (a @ '':'' @ p) '':'' = a # Split p '':''"
    using Split_first [OF assms, of p] by simp
  show ?thesis
  proof (cases "CHR '':'' \<in> set p")
    case True
    then have "count_list p CHR '':'' \<noteq> 0" by (simp add: count_list_0_iff)
    then have "length (Split p '':'') \<noteq> 1" by (simp add: Split_length)
    with True s show ?thesis by (simp add: getRepoNameFromSSHURL_def)
  next
    case False
    then show ?thesis using s by (simp add: getRepoNameFromSSHURL_def Split_notin)
  qed
qed

lemma getRepoNameFromSSHURL_no_colon:
  "CHR '':'' \<notin> set u \<Longrightarrow> getRepoNameFromSSHURL u = Inl (InvalidSSHURLFormat u)"
  by (simp add: getRepoNameFromSSHURL_def Split_notin)

lemma isSSHURL_git: "isSSHURL (''git@'' @ r)"
  by (simp add: isSSHURL_def HasPrefix_def)

section \<open>Properties of the URL path\<close>
























section \<open>Repository-name resolution: the claims\<close>

text \<open>
  C4 (as the code has it). For an SSH-style remote URL \<^verbatim>\<open>git@h:p\<close> whose host part \<open>h\<close> has
  no colon, resolution takes the repository name from the text \<open>p\<close> after the colon when
  \<open>p\<close> has no further colon (the name is the last segment of \<open>p\<close> between slashes, without
  a final \<^verbatim>\<open>.git\<close>), and fails with the invalid-SSH-URL-format error when \<open>p\<close> contains one:
  the URL is split at every colon and must give exactly two pieces.
\<close>

theorem ssh_exactly_one_colon:
  assumes "getRepoURL exec cwd = Inr (''git@'' @ h @ '':'' @ p)" and "CHR '':'' \<notin> set h"
  shows "getRepoName exec cwd
           = (if CHR '':'' \<in> set p then Inl (InvalidSSHURLFormat (''git@'' @ h @ '':'' @ p))
              else Inr (TrimSuffix (last (Split p ''/'')) ''.git''))
       \<and> (CHR '':'' \<notin> set p \<and> CHR ''/'' \<notin> set seg \<and> (p = d @ ''/'' @ seg \<or> p = seg)
            \<longrightarrow> getRepoName exec cwd = Inr (TrimSuffix seg ''.git''))"
proof -
  have "CHR '':'' \<notin> set (''git@'' @ h)" using assms(2) by simp
  from getRepoNameFromSSHURL_one_colon [OF this, of p]
  have r: "getRepoName exec cwd
           = (if CHR '':'' \<in> set p then Inl (InvalidSSHURLFormat (''git@'' @ h @ '':'' @ p))
              else Inr (extractRepoName p))"
    using assms(1) isSSHURL_git [of "h @ '':'' @ p"] by (simp add: getRepoName_def)
  have "getRepoName exec cwd = Inr (TrimSuffix seg ''.git'')"
    if "CHR '':'' \<notin> set p" "CHR ''/'' \<notin> set seg" "p = d @ ''/'' @ seg \<or> p = seg"
    using that r extractRepoName_segment(1) [OF that(2), of d] extractRepoName_segment(2) [OF that(2)]
    by auto
  with r show ?thesis by (simp add: extractRepoName_last)
qed

theorem ssh_exactly_one_colon_witness:
  "getRepoName (gitAnswers (''git@host:a/b:c/repo.git'' @ [CHR 0x0A])) ''.''
     = Inl (InvalidSSHURLFormat ''git@host:a/b:c/repo.git'')
   \<and> getRepoName (gitAnswers (''git@host:a/b/repo.git'' @ [CHR 0x0A])) ''.'' = Inr ''repo''"
proof -
  have u1: "getRepoURL (gitAnswers (''git@host:a/b:c/repo.git'' @ [CHR 0x0A])) ''.''
              = Inr (''git@'' @ ''host'' @ '':'' @ ''a/b:c/repo.git'')"
    by code_simp
  have u2: "getRepoURL (gitAnswers (''git@host:a/b/repo.git'' @ [CHR 0x0A])) ''.''
              = Inr (''git@'' @ ''host'' @ '':'' @ ''a/b/repo.git'')"
    by code_simp
  have h: "CHR '':'' \<notin> set ''host''" by simp
  have e: "TrimSuffix (last (Split ''a/b/repo.git'' ''/'')) ''.git'' = ''repo''" by code_simp
  have t: "TrimSuffix ''repo.git'' ''.git'' = ''repo''" by code_simp
  have s: "CHR '':'' \<notin> set ''a/b/repo.git'' \<and> CHR ''/'' \<notin> set ''repo.git''
             \<and> (''a/b/repo.git'' = ''a/b'' @ ''/'' @ ''repo.git'' \<or> ''a/b/repo.git'' = ''repo.git'')"
    by simp
  show ?thesis
    using ssh_exactly_one_colon [OF u1 h, of "[]" "[]"]
      ssh_exactly_one_colon [OF u2 h, of "''repo.git''" "''a/b''"] s t e
    by simp
qed

text \<open>
  The claim C4 as stated fails: the remote URL \<^verbatim>\<open>git@host:group:sub/repo.git\<close> is SSH-style
  and the text after its first colon names the repository \<^verbatim>\<open>repo\<close>, but resolution returns
  the invalid-SSH-URL-format error.
\<close>

theorem ssh_additional_colon_counterexample:
  "isSSHURL ''git@host:group:sub/repo.git''
   \<and> snd (snd (Cut ''git@host:group:sub/repo.git'' '':'')) = True
   \<and> extractRepoName (fst (snd (Cut ''git@host:group:sub/repo.git'' '':''))) = ''repo''
   \<and> getRepoName (gitAnswers (''git@host:group:sub/repo.git'' @ [CHR 0x0A])) ''.''
       = Inl (InvalidSSHURLFormat ''git@host:group:sub/repo.git'')"
  by code_simp






text \<open>
  C10. A remote URL is treated as SSH-style exactly when its first four bytes are
  \<^verbatim>\<open>git@\<close>, and is then split at its colons. Every other URL goes to
  \<^verbatim>\<open>getRepoNameFromHTTPSURL\<close>: when \<^verbatim>\<open>url.Parse\<close> fails the resolution fails with that
  error, otherwise it succeeds with the last segment of the parsed path, a final \<^verbatim>\<open>.git\<close>
  removed.
\<close>

theorem ssh_classification:
  assumes "getRepoURL exec cwd = Inr url"
  shows "(isSSHURL url \<longleftrightarrow> take 4 url = ''git@'')
       \<and> getRepoName exec cwd
           = (if take 4 url = ''git@'' then getRepoNameFromSSHURL url
              else getRepoNameFromHTTPSURL url)
       \<and> (take 4 url = ''git@'' \<longrightarrow>
            getRepoName exec cwd
              = (if length (Split url '':'') \<noteq> 2 then Inl (InvalidSSHURLFormat url)
                 else Inr (TrimSuffix (last (Split (Split url '':'' ! 1) ''/'')) ''.git'')))
       \<and> (take 4 url \<noteq> ''git@'' \<longrightarrow>
            getRepoName exec cwd
              = (case Parse url of
                   Inl err \<Rightarrow> Inl (ParseRepoURLFailed err)
                 | Inr u \<Rightarrow> Inr (TrimSuffix (last (Split (Path u) ''/'')) ''.git'')))"
proof -
  have l: "length ''git@'' = 4" by simp
  have "isSSHURL url \<longleftrightarrow> take 4 url = ''git@''"
  proof
    assume "isSSHURL url"
    then show "take 4 url = ''git@''" unfolding isSSHURL_def HasPrefix_def l by blast
  next
    assume t: "take 4 url = ''git@''"
    then have "length (take 4 url) = 4" by simp
    then have "4 \<le> length url" by simp
    with t show "isSSHURL url" unfolding isSSHURL_def HasPrefix_def l by blast
  qed
  then show ?thesis
    using assms
    by (simp add: getRepoName_def getRepoNameFromSSHURL_def getRepoNameFromHTTPSURL_def
        extractRepoName_last Let_def split: sum.splits)
qed

theorem ssh_classification_witness:
  "\<not> isSSHURL ''ssh://git@host/group/repo.git''
   \<and> getRepoName (gitAnswers (''ssh://git@host/group/repo.git'' @ [CHR 0x0A])) ''.'' = Inr ''repo''
   \<and> \<not> isSSHURL ''user@host:group/repo.git''
   \<and> getRepoName (gitAnswers (''user@host:group/repo.git'' @ [CHR 0x0A])) ''.''
       = Inl (ParseRepoURLFailed (UrlParseError ''user@host:group/repo.git''
               (UrlError ''first path segment in URL cannot contain colon'')))"
proof -
  have u1: "getRepoURL (gitAnswers (''ssh://git@host/group/repo.git'' @ [CHR 0x0A])) ''.''
              = Inr ''ssh://git@host/group/repo.git''"
    by code_simp
  have u2: "getRepoURL (gitAnswers (''user@host:group/repo.git'' @ [CHR 0x0A])) ''.''
              = Inr ''user@host:group/repo.git''"
    by code_simp
  have r1: "getRepoNameFromHTTPSURL ''ssh://git@host/group/repo.git'' = Inr ''repo''"
    by code_simp
  have r2: "getRepoNameFromHTTPSURL ''user@host:group/repo.git''
              = Inl (ParseRepoURLFailed (UrlParseError ''user@host:group/repo.git''
                      (UrlError ''first path segment in URL cannot contain colon'')))"
    by code_simp
  show ?thesis
    using ssh_classification [OF u1] ssh_classification [OF u2] r1 r2 by simp
qed

section \<open>Properties of the Summary Parser\<close>


















section \<open>Properties of the buffered writer\<close>

text \<open>The file system after \<open>s\<close> has been appended to the file \<open>name\<close>.\<close>

definition appended :: "FS \<Rightarrow> string \<Rightarrow> string \<Rightarrow> FS" where
  "appended fs name s =
     fs\<lparr>files := (files fs)(name \<mapsto> contentOf fs name @ s), room := room fs - length s\<rparr>"

lemma appended_appended: "appended (appended fs name s) name t = appended fs name (s @ t)"
  by (simp add: appended_def contentOf_def)

lemma appended_Nil: "files fs name \<noteq> None \<Longrightarrow> appended fs name [] = fs"
  by (auto simp: appended_def contentOf_def fun_upd_idem)

lemma appended_exists: "files (appended fs name s) name \<noteq> None"
  by (simp add: appended_def)

lemma room_appended: "room (appended fs name s) = room fs - length s"
  by (simp add: appended_def)

lemma fileWrite_fits:
  "length p \<le> room fs \<Longrightarrow> fileWrite fs name p = (appended fs name p, length p, None)"
  by (simp add: fileWrite_def appended_def min_def Let_def)

lemma Flush_fits:
  assumes "werr b = None" and "length (wbuf b) \<le> room fs" and "files fs name \<noteq> None"
  shows "Flush name b fs = (\<lparr>wbuf = [], werr = None\<rparr>, appended fs name (wbuf b), None)"
proof (cases "wbuf b = []")
  case True
  then have "b = \<lparr>wbuf = [], werr = None\<rparr>" using assms(1) by simp
  with True assms(3) show ?thesis by (simp add: Flush_def appended_Nil)
next
  case False
  with assms(1,2) show ?thesis by (simp add: Flush_def fileWrite_fits)
qed

text \<open>While the device has room, the loop of \<^verbatim>\<open>Write\<close> keeps the text "file, then buffer,
  then bytes still to write" unchanged.\<close>

lemma writeLoop_fits:
  assumes "werr b = None" and "length (wbuf b) \<le> defaultBufSize"
    and "length (wbuf b) + length p \<le> room fs" and "files fs name \<noteq> None"
  shows "\<exists>b' fs' p'. writeLoop name b fs p nn = (b', fs', p', nn + (length p - length p'))
           \<and> werr b' = None \<and> length (wbuf b') + length p' \<le> defaultBufSize
           \<and> length p' \<le> length p \<and> files fs' name \<noteq> None
           \<and> length (wbuf b') + length p' \<le> room fs'
           \<and> appended fs' name (wbuf b' @ p') = appended fs name (wbuf b @ p)"
  using assms
proof (induction name b fs p nn rule: writeLoop.induct)
  case (1 name b fs p nn)
  show ?case
  proof (cases "length p > Available b \<and> werr b = None")
    case False
    with "1.prems" have "length (wbuf b) + length p \<le> defaultBufSize"
      by (simp add: Available_def)
    with False "1.prems" show ?thesis by (simp add: writeLoop.simps [of name b fs p nn])
  next
    case True
    show ?thesis
    proof (cases "wbuf b = []")
      case e: True
      have st: "writeStep name b fs p = (b, appended fs name p, length p)"
        using e "1.prems" by (simp add: writeStep_def fileWrite_fits)
      have "writeLoop name b (appended fs name p) [] (nn + length p)
              = (b, appended fs name p, [], nn + length p)"
        using e by (simp add: writeLoop.simps [of name b _ "[]"] Available_def defaultBufSize_def)
      then have "writeLoop name b fs p nn = (b, appended fs name p, [], nn + length p)"
        using True st by (simp add: writeLoop.simps [of name b fs p nn])
      then show ?thesis
        using e "1.prems" appended_exists [of fs name p] by (simp add: appended_appended)
    next
      case ne: False
      let ?n = "Available b"
      let ?b1 = "b\<lparr>wbuf := wbuf b @ take ?n p\<rparr>"
      let ?fs1 = "appended fs name (wbuf b @ take ?n p)"
      let ?b2 = "\<lparr>wbuf = [], werr = None\<rparr>"
      have n: "min (Available b) (length p) = ?n" using True by simp
      have len: "length (wbuf b @ take ?n p) = length (wbuf b) + ?n" using True by simp
      have "length (wbuf ?b1) \<le> room fs" using len True "1.prems"(3) by simp
      then have fl: "Flush name ?b1 fs = (?b2, ?fs1, None)"
        using Flush_fits [of ?b1 fs name] "1.prems"(1,4) by simp
      have st: "writeStep name b fs p = (?b2, ?fs1, ?n)"
        using ne fl n by (simp add: writeStep_def Let_def)
      have r: "length (wbuf ?b2) + length (drop ?n p) \<le> room ?fs1"
        using len True "1.prems"(3) by (simp add: room_appended)
      have w: "werr ?b2 = None" and lb: "length (wbuf ?b2) \<le> defaultBufSize" by simp_all
      from "1.IH" [OF True st [symmetric] refl w lb r appended_exists]
      obtain b' fs' p' where
        l: "writeLoop name ?b2 ?fs1 (drop ?n p) (nn + ?n)
              = (b', fs', p', nn + ?n + (length (drop ?n p) - length p'))"
        and i: "werr b' = None" "length (wbuf b') + length p' \<le> defaultBufSize"
          "length p' \<le> length (drop ?n p)" "files fs' name \<noteq> None"
          "length (wbuf b') + length p' \<le> room fs'"
        and a: "appended fs' name (wbuf b' @ p') = appended ?fs1 name (wbuf ?b2 @ drop ?n p)"
        by auto
      have "appended ?fs1 name (wbuf ?b2 @ drop ?n p) = appended fs name (wbuf b @ p)"
        by (simp add: appended_appended)
      with a have a': "appended fs' name (wbuf b' @ p') = appended fs name (wbuf b @ p)" by simp
      have "nn + ?n + (length (drop ?n p) - length p') = nn + (length p - length p')"
        using True i(3) by (simp, arith)
      with l have l': "writeLoop name ?b2 ?fs1 (drop ?n p) (nn + ?n)
              = (b', fs', p', nn + (length p - length p'))" by simp
      have "writeLoop name b fs p nn = (b', fs', p', nn + (length p - length p'))"
        using True st l' by (simp add: writeLoop.simps [of name b fs p nn])
      with i a' show ?thesis by simp
    qed
  qed
qed

lemma writerWrite_fits:
  assumes "werr b = None" and "length (wbuf b) \<le> defaultBufSize"
    and "length (wbuf b) + length p \<le> room fs" and "files fs name \<noteq> None"
  shows "\<exists>b' fs'. writerWrite name b fs p = (b', fs', length p, None)
           \<and> werr b' = None \<and> length (wbuf b') \<le> defaultBufSize \<and> files fs' name \<noteq> None
           \<and> length (wbuf b') \<le> room fs'
           \<and> appended fs' name (wbuf b') = appended fs name (wbuf b @ p)"
proof -
  from writeLoop_fits [OF assms, of 0]
  obtain b' fs' p' where l: "writeLoop name b fs p 0 = (b', fs', p', length p - length p')"
    and i: "werr b' = None" "length (wbuf b') + length p' \<le> defaultBufSize"
      "length p' \<le> length p" "files fs' name \<noteq> None"
      "length (wbuf b') + length p' \<le> room fs'"
    and a: "appended fs' name (wbuf b' @ p') = appended fs name (wbuf b @ p)"
    by auto
  then show ?thesis by (simp add: writerWrite_def)
qed

text \<open>The writer and its file are in order: no error so far, the buffer within its size,
  the file there, and room on the device for what is buffered.\<close>

definition ready :: "Writer \<Rightarrow> FS \<Rightarrow> string \<Rightarrow> bool" where
  "ready b fs name =
     (werr b = None \<and> length (wbuf b) \<le> defaultBufSize \<and> files fs name \<noteq> None
      \<and> length (wbuf b) \<le> room fs)"

lemma room_after:
  assumes "appended fs' name s' = appended fs name s" and "length s' \<le> room fs'"
    and "length s + n \<le> room fs"
  shows "length s' + n \<le> room fs'"
proof -
  have "room fs' - length s' = room fs - length s"
    using assms(1) room_appended [of fs' name s'] room_appended [of fs name s] by simp
  with assms(2,3) show ?thesis by arith
qed

lemma writerWrite_ready:
  assumes "ready b fs name" and "length (wbuf b) + length p + n \<le> room fs"
  shows "\<exists>b' fs'. writerWrite name b fs p = (b', fs', length p, None) \<and> ready b' fs' name
           \<and> length (wbuf b') + n \<le> room fs'
           \<and> appended fs' name (wbuf b') = appended fs name (wbuf b @ p)"
proof -
  have "length (wbuf b) + length p \<le> room fs" using assms(2) by simp
  with assms(1) writerWrite_fits [of b p fs name]
  obtain b' fs' where w: "writerWrite name b fs p = (b', fs', length p, None)"
    and r: "ready b' fs' name"
    and a: "appended fs' name (wbuf b') = appended fs name (wbuf b @ p)"
    by (auto simp: ready_def)
  have "length (wbuf b') + n \<le> room fs'"
    using room_after [OF a, of n] r assms(2) by (simp add: ready_def)
  with w r a show ?thesis by simp
qed

lemma executeChunks_ready:
  assumes "ready b fs name" and "length (wbuf b) + length (concat cs) + n \<le> room fs"
  shows "\<exists>b' fs'. executeChunks name cs b fs = (b', fs', None) \<and> ready b' fs' name
           \<and> length (wbuf b') + n \<le> room fs'
           \<and> appended fs' name (wbuf b') = appended fs name (wbuf b @ concat cs)"
  using assms
proof (induction cs arbitrary: b fs)
  case Nil
  then show ?case by simp
next
  case (Cons c cs)
  have "length (wbuf b) + length c + (length (concat cs) + n) \<le> room fs"
    using Cons.prems(2) by simp
  from writerWrite_ready [OF Cons.prems(1) this]
  obtain b1 fs1 where w: "writerWrite name b fs c = (b1, fs1, length c, None)"
    and r: "ready b1 fs1 name" and l: "length (wbuf b1) + length (concat cs) + n \<le> room fs1"
    and a: "appended fs1 name (wbuf b1) = appended fs name (wbuf b @ c)"
    by (auto simp: add.assoc)
  from Cons.IH [OF r l]
  obtain b' fs' where e: "executeChunks name cs b1 fs1 = (b', fs', None)"
    and r': "ready b' fs' name" and l': "length (wbuf b') + n \<le> room fs'"
    and a': "appended fs' name (wbuf b') = appended fs1 name (wbuf b1 @ concat cs)"
    by auto
  have "appended fs1 name (wbuf b1 @ concat cs) = appended fs name (wbuf b @ c @ concat cs)"
    using a appended_appended [of fs1 name "wbuf b1" "concat cs"]
      appended_appended [of fs name "wbuf b @ c" "concat cs"] by simp
  with w e r' l' a' show ?case by simp
qed

text \<open>What the Report Writer is to write for a list of records: each record's rendered
  pieces, then a line feed.\<close>

definition rendered :: "Template \<Rightarrow> Author list \<Rightarrow> string" where
  "rendered tmpl authors = concat (map (\<lambda>a. concat (fst (tmpl a)) @ [CHR 0x0A]) authors)"

lemma writeAuthors_ready:
  assumes "ready b fs name" and "length (wbuf b) + length (rendered tmpl authors) \<le> room fs"
    and "\<forall>a \<in> set authors. snd (tmpl a) = None"
  shows "\<exists>b' fs'. writeAuthors tmpl name authors b fs = (b', fs', None) \<and> ready b' fs' name
           \<and> appended fs' name (wbuf b') = appended fs name (wbuf b @ rendered tmpl authors)"
  using assms
proof (induction authors arbitrary: b fs)
  case Nil
  then show ?case by (simp add: rendered_def)
next
  case (Cons a authors)
  obtain cs where t: "tmpl a = (cs, None)" using Cons.prems(3) by (cases "tmpl a") auto
  let ?rest = "rendered tmpl authors"
  have len: "length (rendered tmpl (a # authors)) = length (concat cs) + 1 + length ?rest"
    by (simp add: rendered_def t)
  have "length (wbuf b) + length (concat cs) + (1 + length ?rest) \<le> room fs"
    using Cons.prems(2) len by simp
  from executeChunks_ready [OF Cons.prems(1) this]
  obtain b1 fs1 where e: "executeChunks name cs b fs = (b1, fs1, None)"
    and r1: "ready b1 fs1 name" and l1: "length (wbuf b1) + (1 + length ?rest) \<le> room fs1"
    and a1: "appended fs1 name (wbuf b1) = appended fs name (wbuf b @ concat cs)"
    by auto
  have "length (wbuf b1) + length [CHR 0x0A] + length ?rest \<le> room fs1" using l1 by simp
  from writerWrite_ready [OF r1 this]
  obtain b2 fs2 where w: "writerWrite name b1 fs1 [CHR 0x0A] = (b2, fs2, 1, None)"
    and r2: "ready b2 fs2 name" and l2: "length (wbuf b2) + length ?rest \<le> room fs2"
    and a2: "appended fs2 name (wbuf b2) = appended fs1 name (wbuf b1 @ [CHR 0x0A])"
    by auto
  have p: "\<forall>a \<in> set authors. snd (tmpl a) = None" using Cons.prems(3) by simp
  from Cons.IH [OF r2 l2 p]
  obtain b' fs' where wa: "writeAuthors tmpl name authors b2 fs2 = (b', fs', None)"
    and r': "ready b' fs' name"
    and a': "appended fs' name (wbuf b') = appended fs2 name (wbuf b2 @ ?rest)"
    by auto
  have "appended fs2 name (wbuf b2 @ ?rest) = appended fs name (wbuf b @ rendered tmpl (a # authors))"
    using a1 a2 appended_appended [of fs2 name "wbuf b2" ?rest]
      appended_appended [of fs1 name "wbuf b1" "[CHR 0x0A]"]
      appended_appended [of fs name "wbuf b @ concat cs" "[CHR 0x0A] @ ?rest"]
      appended_appended [of fs1 name "wbuf b1 @ [CHR 0x0A]" "?rest"]
      appended_appended [of fs1 name "wbuf b1" "[CHR 0x0A] @ ?rest"]
    by (simp add: rendered_def t)
  with a' have "appended fs' name (wbuf b') = appended fs name (wbuf b @ rendered tmpl (a # authors))"
    by simp
  with e w wa r' show ?case by (simp add: Execute_def t)
qed

lemma writeMarkdownFile_fits:
  assumes "\<not> denied fs filename" and "\<forall>a \<in> set authors. snd (tmpl a) = None"
    and "length (rendered tmpl authors) \<le> room fs"
  shows "writeMarkdownFile (Inr tmpl) filename authors fs
           = (fs\<lparr>files := (files fs)(filename \<mapsto> rendered tmpl authors),
                 room := room fs - length (rendered tmpl authors)\<rparr>, None)"
proof -
  let ?fs1 = "fs\<lparr>files := (files fs)(filename \<mapsto> [])\<rparr>"
  have c: "osCreate fs filename = (?fs1, None)" using assms(1) by (simp add: osCreate_def)
  have r: "ready NewWriter ?fs1 filename" by (simp add: ready_def NewWriter_def)
  have l: "length (wbuf NewWriter) + length (rendered tmpl authors) \<le> room ?fs1"
    using assms(3) by (simp add: NewWriter_def)
  from writeAuthors_ready [OF r l assms(2)]
  obtain b fs2 where w: "writeAuthors tmpl filename authors NewWriter ?fs1 = (b, fs2, None)"
    and r2: "ready b fs2 filename"
    and a: "appended fs2 filename (wbuf b) = appended ?fs1 filename (rendered tmpl authors)"
    by (auto simp: NewWriter_def)
  have f: "Flush filename b fs2 = (\<lparr>wbuf = [], werr = None\<rparr>, appended fs2 filename (wbuf b), None)"
    using r2 by (intro Flush_fits) (simp_all add: ready_def)
  have "appended ?fs1 filename (rendered tmpl authors)
          = fs\<lparr>files := (files fs)(filename \<mapsto> rendered tmpl authors),
                room := room fs - length (rendered tmpl authors)\<rparr>"
    by (simp add: appended_def contentOf_def)
  with c w f a show ?thesis by (simp add: writeMarkdownFile_def)
qed


text \<open>A write that fits the buffer only extends the buffer: nothing reaches the file.\<close>

lemma writerWrite_buffered:
  assumes "werr b = None" and "length (wbuf b) + length p \<le> defaultBufSize"
  shows "writerWrite name b fs p = (b\<lparr>wbuf := wbuf b @ p\<rparr>, fs, length p, None)"
proof -
  have "\<not> length p > Available b" using assms(2) unfolding Available_def by arith
  then have "writeLoop name b fs p 0 = (b, fs, p, 0)" by (simp add: writeLoop.simps [of name b fs p 0])
  with assms(1) show ?thesis by (simp add: writerWrite_def)
qed

lemma executeChunks_buffered:
  assumes "werr b = None" and "length (wbuf b) + length (concat cs) \<le> defaultBufSize"
  shows "executeChunks name cs b fs = (b\<lparr>wbuf := wbuf b @ concat cs\<rparr>, fs, None)"
  using assms
proof (induction cs arbitrary: b)
  case Nil
  then show ?case by simp
next
  case (Cons c cs)
  have w: "writerWrite name b fs c = (b\<lparr>wbuf := wbuf b @ c\<rparr>, fs, length c, None)"
    using Cons.prems by (intro writerWrite_buffered) simp_all
  have "executeChunks name cs (b\<lparr>wbuf := wbuf b @ c\<rparr>) fs
          = (b\<lparr>wbuf := wbuf b @ c\<rparr>\<lparr>wbuf := wbuf (b\<lparr>wbuf := wbuf b @ c\<rparr>) @ concat cs\<rparr>, fs, None)"
    using Cons.prems by (intro Cons.IH) simp_all
  with w show ?case by simp
qed

lemma writeAuthors_buffered:
  assumes "werr b = None" and "length (wbuf b) + length (rendered tmpl authors) \<le> defaultBufSize"
    and "\<forall>a \<in> set authors. snd (tmpl a) = None"
  shows "writeAuthors tmpl name authors b fs = (b\<lparr>wbuf := wbuf b @ rendered tmpl authors\<rparr>, fs, None)"
  using assms
proof (induction authors arbitrary: b)
  case Nil
  then show ?case by (simp add: rendered_def)
next
  case (Cons a authors)
  obtain cs where t: "tmpl a = (cs, None)" using Cons.prems(3) by (cases "tmpl a") auto
  have r: "rendered tmpl (a # authors) = concat cs @ [CHR 0x0A] @ rendered tmpl authors"
    by (simp add: rendered_def t)
  let ?b1 = "b\<lparr>wbuf := wbuf b @ concat cs\<rparr>"
  let ?b2 = "?b1\<lparr>wbuf := wbuf ?b1 @ [CHR 0x0A]\<rparr>"
  have e: "executeChunks name cs b fs = (?b1, fs, None)"
    using Cons.prems(1,2) r by (intro executeChunks_buffered) simp_all
  have w: "writerWrite name ?b1 fs [CHR 0x0A] = (?b2, fs, length [CHR 0x0A], None)"
    using Cons.prems(1,2) r by (intro writerWrite_buffered) simp_all
  have "writeAuthors tmpl name authors ?b2 fs
          = (?b2\<lparr>wbuf := wbuf ?b2 @ rendered tmpl authors\<rparr>, fs, None)"
    using Cons.prems r by (intro Cons.IH) simp_all
  with e w show ?case by (simp add: Execute_def t r)
qed

text \<open>When the whole text fits the buffer, the only write to the file is the final flush,
  and \<^verbatim>\<open>writeMarkdownFile\<close> returns nil whether or not the device took the text.\<close>

lemma writeMarkdownFile_small:
  assumes "\<not> denied fs filename" and "\<forall>a \<in> set authors. snd (tmpl a) = None"
    and "length (rendered tmpl authors) \<le> defaultBufSize"
  shows "snd (writeMarkdownFile (Inr tmpl) filename authors fs) = None"
    and "files (fst (writeMarkdownFile (Inr tmpl) filename authors fs)) filename
           = Some (take (room fs) (rendered tmpl authors))"
proof -
  let ?fs1 = "fs\<lparr>files := (files fs)(filename \<mapsto> [])\<rparr>"
  let ?b = "NewWriter\<lparr>wbuf := wbuf NewWriter @ rendered tmpl authors\<rparr>"
  have c: "osCreate fs filename = (?fs1, None)" using assms(1) by (simp add: osCreate_def)
  have w: "writeAuthors tmpl filename authors NewWriter ?fs1 = (?b, ?fs1, None)"
    using assms(2,3) by (intro writeAuthors_buffered) (simp_all add: NewWriter_def)
  obtain b' fs3 e where f: "Flush filename ?b ?fs1 = (b', fs3, e)"
    by (cases "Flush filename ?b ?fs1") auto
  then have "files fs3 filename = Some (take (room fs) (rendered tmpl authors))"
    by (auto simp: Flush_def fileWrite_def NewWriter_def contentOf_def Let_def min_def
        split: if_splits)
  with c w f show "snd (writeMarkdownFile (Inr tmpl) filename authors fs) = None"
    and "files (fst (writeMarkdownFile (Inr tmpl) filename authors fs)) filename
           = Some (take (room fs) (rendered tmpl authors))"
    by (simp_all add: writeMarkdownFile_def)
qed

lemma RunCommand_err:
  "procErr (exec cmd cwd) \<noteq> None \<Longrightarrow> \<exists>out code e. RunCommand exec cmd cwd = (out, code, Some e)"
  by (auto simp: RunCommand_def Let_def)

section \<open>The Report Writer and the run: the claims\<close>

text \<open>
  C3. When the file can be created, every record renders without an error and the device
  takes all the bytes, \<^verbatim>\<open>writeMarkdownFile\<close> returns no error and leaves in the file exactly
  the rendered pieces of each record, in the order of the records, each record followed by
  one line feed. Whatever the file held before is gone: a second run with other records
  leaves only the text of those records.
\<close>

theorem writeMarkdownFile_contents:
  assumes "\<not> denied fs filename"
    and "\<forall>a \<in> set authors. snd (tmpl a) = None" and "\<forall>a \<in> set authors'. snd (tmpl a) = None"
    and "length (concat (map (\<lambda>a. concat (fst (tmpl a)) @ [CHR 0x0A]) authors))
         + length (concat (map (\<lambda>a. concat (fst (tmpl a)) @ [CHR 0x0A]) authors')) \<le> room fs"
  shows "writeMarkdownFile (Inr tmpl) filename authors fs
           = (fs\<lparr>files := (files fs)(filename \<mapsto>
                        concat (map (\<lambda>a. concat (fst (tmpl a)) @ [CHR 0x0A]) authors)),
                 room := room fs
                        - length (concat (map (\<lambda>a. concat (fst (tmpl a)) @ [CHR 0x0A]) authors))\<rparr>,
              None)
       \<and> snd (writeMarkdownFile (Inr tmpl) filename authors'
                (fst (writeMarkdownFile (Inr tmpl) filename authors fs))) = None
       \<and> files (fst (writeMarkdownFile (Inr tmpl) filename authors'
                (fst (writeMarkdownFile (Inr tmpl) filename authors fs)))) filename
           = Some (concat (map (\<lambda>a. concat (fst (tmpl a)) @ [CHR 0x0A]) authors'))"
proof -
  let ?r = "rendered tmpl authors" and ?r' = "rendered tmpl authors'"
  let ?fs1 = "fs\<lparr>files := (files fs)(filename \<mapsto> ?r), room := room fs - length ?r\<rparr>"
  have l: "length ?r \<le> room fs" "length ?r' \<le> room ?fs1"
    using assms(4) by (simp_all add: rendered_def)
  have first: "writeMarkdownFile (Inr tmpl) filename authors fs = (?fs1, None)"
    using assms(1,2) l(1) by (rule writeMarkdownFile_fits)
  have d: "\<not> denied ?fs1 filename" using assms(1) by simp
  have "writeMarkdownFile (Inr tmpl) filename authors' ?fs1
          = (?fs1\<lparr>files := (files ?fs1)(filename \<mapsto> ?r'), room := room ?fs1 - length ?r'\<rparr>, None)"
    using d assms(3) l(2) by (rule writeMarkdownFile_fits)
  with first show ?thesis by (simp add: rendered_def)
qed

theorem writeMarkdownFile_contents_witness:
  "writeMarkdownFile (Inr markdownLine) ''authors.md''
      [\<lparr>Name = ''Ada'', CommitCount = ''42'', RepoName = ''w'', SearchURL = ''u''\<rparr>,
       \<lparr>Name = ''Bob'', CommitCount = ''7'', RepoName = ''w'', SearchURL = ''v''\<rparr>]
      ((emptyFS 100)\<lparr>files := [''authors.md'' \<mapsto> ''old text'']\<rparr>)
     = ((emptyFS 100)\<lparr>files := [''authors.md'' \<mapsto> ''- [Ada](u) 42'' @ [CHR 0x0A] @ ''- [Bob](v) 7'' @ [CHR 0x0A]],
                        room := 73\<rparr>, None)"
proof -
  let ?fs = "(emptyFS 100)\<lparr>files := [''authors.md'' \<mapsto> ''old text'']\<rparr>"
  let ?as = "[\<lparr>Name = ''Ada'', CommitCount = ''42'', RepoName = ''w'', SearchURL = ''u''\<rparr>,
       \<lparr>Name = ''Bob'', CommitCount = ''7'', RepoName = ''w'', SearchURL = ''v''\<rparr>]"
  have d: "\<not> denied ?fs ''authors.md''" by (simp add: emptyFS_def)
  have e: "\<forall>a \<in> set ?as. snd (markdownLine a) = None" by (simp add: markdownLine_def)
  have e': "\<forall>a \<in> set []. snd (markdownLine a) = None" by simp
  have l: "length (concat (map (\<lambda>a. concat (fst (markdownLine a)) @ [CHR 0x0A]) ?as))
         + length (concat (map (\<lambda>a. concat (fst (markdownLine a)) @ [CHR 0x0A]) [])) \<le> room ?fs"
    by (simp add: markdownLine_def emptyFS_def)
  have c: "concat (map (\<lambda>a. concat (fst (markdownLine a)) @ [CHR 0x0A]) ?as)
             = ''- [Ada](u) 42'' @ [CHR 0x0A] @ ''- [Bob](v) 7'' @ [CHR 0x0A]"
    by (simp add: markdownLine_def)
  show ?thesis
    using writeMarkdownFile_contents [OF d e e' l] unfolding c
    by (simp add: emptyFS_def)
qed

text \<open>
  C7. When the remote-URL query, the branch query or the shortlog summary fails (the error
  of running the command is not nil), the run ends with an error message and the file
  system is as it was: no file is created or written.
\<close>

theorem Run_command_failure:
  assumes "procErr (exec [''git'', ''-C'', cwd, ''config'', ''--get'', ''remote.origin.url''] cwd) \<noteq> None
         \<or> procErr (exec [''git'', ''-C'', cwd, ''rev-parse'', ''--abbrev-ref'', ''HEAD''] cwd) \<noteq> None
         \<or> procErr (exec [''git'', ''-C'', cwd, ''-c'', ''core.excludesFile='', ''shortlog'',
                           ''--summary'', ''--numbered'',
                           TrimSpace (procStdout (exec [''git'', ''-C'', cwd, ''rev-parse'',
                                                        ''--abbrev-ref'', ''HEAD''] cwd))] cwd) \<noteq> None"
  shows "fst (Run exec templateFS fs cwd) = fs
       \<and> (\<exists>stage err. snd (Run exec templateFS fs cwd) = ErrorMessage stage err)"
proof -
  let ?branchCmd = "[''git'', ''-C'', cwd, ''rev-parse'', ''--abbrev-ref'', ''HEAD'']"
  have a: "\<exists>e. getRepoName exec cwd = Inl e"
    if "procErr (exec [''git'', ''-C'', cwd, ''config'', ''--get'', ''remote.origin.url''] cwd) \<noteq> None"
    using RunCommand_err [where exec = exec and cwd = cwd, OF that]
    by (auto simp: getRepoName_def getRepoURL_def)
  have b: "\<exists>e. getCurrentBranch exec cwd = Inl e" if "procErr (exec ?branchCmd cwd) \<noteq> None"
    using RunCommand_err [where exec = exec and cwd = cwd, OF that]
    by (auto simp: getCurrentBranch_def)
  have b': "getCurrentBranch exec cwd = Inr (TrimSpace (procStdout (exec ?branchCmd cwd)))"
    if "procErr (exec ?branchCmd cwd) = None"
    using that by (simp add: getCurrentBranch_def RunCommand_def Let_def)
  have c: "\<exists>e. executeGitShortlog exec cwd branch = Inl e"
    if "procErr (exec [''git'', ''-C'', cwd, ''-c'', ''core.excludesFile='', ''shortlog'',
                       ''--summary'', ''--numbered'', branch] cwd) \<noteq> None" for branch
    using RunCommand_err [where exec = exec and cwd = cwd, OF that]
    by (auto simp: executeGitShortlog_def)
  show ?thesis
  proof (cases "getRepoName exec cwd")
    case (Inl e)
    then show ?thesis by (simp add: Run_def)
  next
    case r: (Inr repoName)
    have na: "procErr (exec [''git'', ''-C'', cwd, ''config'', ''--get'', ''remote.origin.url''] cwd) = None"
    proof (rule ccontr)
      assume "procErr (exec [''git'', ''-C'', cwd, ''config'', ''--get'', ''remote.origin.url''] cwd) \<noteq> None"
      from a [OF this] r show False by auto
    qed
    show ?thesis
    proof (cases "getCurrentBranch exec cwd")
      case (Inl e)
      with r show ?thesis by (simp add: Run_def)
    next
      case br: (Inr currentBranch)
      have nb: "procErr (exec ?branchCmd cwd) = None"
      proof (rule ccontr)
        assume "procErr (exec ?branchCmd cwd) \<noteq> None"
        from b [OF this] br show False by auto
      qed
      from b' [OF nb] br have cb: "currentBranch = TrimSpace (procStdout (exec ?branchCmd cwd))"
        by simp
      from assms na nb cb
      have "procErr (exec [''git'', ''-C'', cwd, ''-c'', ''core.excludesFile='', ''shortlog'',
                       ''--summary'', ''--numbered'', currentBranch] cwd) \<noteq> None"
        by simp
      from c [OF this] obtain e where "executeGitShortlog exec cwd currentBranch = Inl e" by blast
      with r br show ?thesis by (simp add: Run_def)
    qed
  qed
qed

theorem Run_command_failure_witness:
  "Run (gitWith (succeeded ''git@h:g/widget.git'') (succeeded ''main'') (exited 128 ''fatal''))
       (Inr markdownLine) ((emptyFS 1000)\<lparr>files := [''authors.md'' \<mapsto> ''old text'']\<rparr>) ''.''
     = ((emptyFS 1000)\<lparr>files := [''authors.md'' \<mapsto> ''old text'']\<rparr>,
        ErrorMessage ''Error executing git shortlog:''
          (GitShortlogFailed (ExecError ''exit status'') 128 ([CHR 0x0A] @ ''fatal'')))"
proof -
  let ?exec = "gitWith (succeeded ''git@h:g/widget.git'') (succeeded ''main'') (exited 128 ''fatal'')"
  let ?fs = "(emptyFS 1000)\<lparr>files := [''authors.md'' \<mapsto> ''old text'']\<rparr>"
  have h: "procErr (?exec [''git'', ''-C'', ''.'', ''config'', ''--get'', ''remote.origin.url''] ''.'') \<noteq> None
         \<or> procErr (?exec [''git'', ''-C'', ''.'', ''rev-parse'', ''--abbrev-ref'', ''HEAD''] ''.'') \<noteq> None
         \<or> procErr (?exec [''git'', ''-C'', ''.'', ''-c'', ''core.excludesFile='', ''shortlog'',
                           ''--summary'', ''--numbered'',
                           TrimSpace (procStdout (?exec [''git'', ''-C'', ''.'', ''rev-parse'',
                                                        ''--abbrev-ref'', ''HEAD''] ''.''))] ''.'') \<noteq> None"
  proof -
    have "TrimSpace ''main'' = ''main''" by code_simp
    then show ?thesis by (simp add: gitWith_def exited_def succeeded_def)
  qed
  have m: "snd (Run ?exec (Inr markdownLine) ?fs ''.'')
             = ErrorMessage ''Error executing git shortlog:''
                 (GitShortlogFailed (ExecError ''exit status'') 128 ([CHR 0x0A] @ ''fatal''))"
    by code_simp
  show ?thesis
    using Run_command_failure [where exec = ?exec and cwd = "''.''" and templateFS = "Inr markdownLine"
        and fs = ?fs, OF h] m
    by (simp add: prod_eq_iff)
qed

text \<open>
  C8. The error of the final \<^verbatim>\<open>writer.Flush()\<close> is not read. With a device that takes no
  bytes, the only write to the file is that flush; it fails, the file stays empty, and
  \<^verbatim>\<open>writeMarkdownFile\<close> still returns no error.
\<close>

theorem writeMarkdownFile_flush_error_dropped:
  "snd (writeMarkdownFile (Inr markdownLine) ''authors.md''
          [\<lparr>Name = ''Ada'', CommitCount = ''42'', RepoName = ''w'', SearchURL = ''u''\<rparr>]
          (emptyFS 0)) = None
   \<and> files (fst (writeMarkdownFile (Inr markdownLine) ''authors.md''
          [\<lparr>Name = ''Ada'', CommitCount = ''42'', RepoName = ''w'', SearchURL = ''u''\<rparr>]
          (emptyFS 0))) ''authors.md'' = Some []
   \<and> snd (snd (Flush ''authors.md'' \<lparr>wbuf = ''- [Ada](u) 42'' @ [CHR 0x0A], werr = None\<rparr>
                  ((emptyFS 0)\<lparr>files := [''authors.md'' \<mapsto> []]\<rparr>)))
       = Some (PathError ''authors.md'')"
proof -
  let ?as = "[\<lparr>Name = ''Ada'', CommitCount = ''42'', RepoName = ''w'', SearchURL = ''u''\<rparr>]"
  have d: "\<not> denied (emptyFS 0) ''authors.md''" by (simp add: emptyFS_def)
  have e: "\<forall>a \<in> set ?as. snd (markdownLine a) = None" by (simp add: markdownLine_def)
  have l: "length (rendered markdownLine ?as) \<le> defaultBufSize"
    by (simp add: rendered_def markdownLine_def defaultBufSize_def)
  have f: "snd (snd (Flush ''authors.md'' \<lparr>wbuf = ''- [Ada](u) 42'' @ [CHR 0x0A], werr = None\<rparr>
                  ((emptyFS 0)\<lparr>files := [''authors.md'' \<mapsto> []]\<rparr>)))
       = Some (PathError ''authors.md'')"
    by (simp add: Flush_def fileWrite_def emptyFS_def Let_def)
  show ?thesis
    using writeMarkdownFile_small [OF d e l] f by (simp add: emptyFS_def)
qed

end
